theory Spec2Isabelle
  imports Complex_Main "HOL-Library.AList"
begin

section \<open>Python values\<close>

text \<open>
  The quiz items of \<^verbatim>\<open>quiz.py\<close> are Python dicts: the entries of
  \<^verbatim>\<open>QUESTION_BANK\<close> and whatever \<^verbatim>\<open>json.loads\<close> makes of a model reply.
  A dict is an association list in insertion order; the values are the JSON values.
  JSON numbers with a fraction or an exponent (Python floats) are not part of this model,
  and a string is a list of 8-bit characters.
\<close>

datatype pyval =
    PNone
  | PBool bool
  | PInt int
  | PStr string
  | PList "pyval list"
  | PDict "(string \<times> pyval) list"

type_synonym dict = "(string \<times> pyval) list"

text \<open>The exceptions that occur; all of them are subclasses of \<^verbatim>\<open>Exception\<close>.\<close>

datatype exn =
    JSONDecodeError
  | KeyError
  | IndexError
  | TypeError
  | ValueError
  | OtherException string

text \<open>Sequencing of statements that may raise, and \<^verbatim>\<open>try: ... except Exception\<close>.\<close>

definition ebind :: "exn + 'a \<Rightarrow> ('a \<Rightarrow> exn + 'b) \<Rightarrow> exn + 'b" where
  "ebind m f = (case m of Inl e \<Rightarrow> Inl e | Inr x \<Rightarrow> f x)"

definition try_except :: "exn + 'a \<Rightarrow> (exn \<Rightarrow> exn + 'a) \<Rightarrow> exn + 'a" where
  "try_except body handler = (case body of Inl e \<Rightarrow> handler e | Inr x \<Rightarrow> Inr x)"

text \<open>
  The operator \<^verbatim>\<open>==\<close>: \<^verbatim>\<open>True == 1\<close> holds, lists are compared element by
  element, dicts by their keys and the values under them, whatever the order of insertion.
\<close>

fun py_eq :: "pyval \<Rightarrow> pyval \<Rightarrow> bool"
  and py_eq_list :: "pyval list \<Rightarrow> pyval list \<Rightarrow> bool"
  and dict_sub :: "dict \<Rightarrow> dict \<Rightarrow> bool" where
  "py_eq PNone v = (v = PNone)"
| "py_eq (PBool b) v = (v = PBool b \<or> v = PInt (if b then 1 else 0))"
| "py_eq (PInt i) v = (v = PInt i \<or> (i = 1 \<and> v = PBool True) \<or> (i = 0 \<and> v = PBool False))"
| "py_eq (PStr s) v = (v = PStr s)"
| "py_eq (PList xs) v = (case v of PList ys \<Rightarrow> py_eq_list xs ys | _ \<Rightarrow> False)"
| "py_eq (PDict d) v = (case v of PDict e \<Rightarrow> length d = length e \<and> dict_sub d e | _ \<Rightarrow> False)"
| "py_eq_list [] ys = (ys = [])"
| "py_eq_list (x # xs) ys = (case ys of [] \<Rightarrow> False | y # ys' \<Rightarrow> py_eq x y \<and> py_eq_list xs ys')"
| "dict_sub [] e = True"
| "dict_sub ((k, v) # d) e =
     (case map_of e k of None \<Rightarrow> False | Some w \<Rightarrow> py_eq v w \<and> dict_sub d e)"

text \<open>Truth value of an object, as \<^verbatim>\<open>if x\<close> and \<^verbatim>\<open>x and y\<close> take it.\<close>

fun truthy :: "pyval \<Rightarrow> bool" where
  "truthy PNone = False"
| "truthy (PBool b) = b"
| "truthy (PInt i) = (i \<noteq> 0)"
| "truthy (PStr s) = (s \<noteq> [])"
| "truthy (PList xs) = (xs \<noteq> [])"
| "truthy (PDict d) = (d \<noteq> [])"

text \<open>\<^verbatim>\<open>xs[i]\<close> on a list: a negative index counts from the end.\<close>

definition py_nth :: "'a list \<Rightarrow> int \<Rightarrow> exn + 'a" where
  "py_nth xs i =
     (if 0 \<le> i \<and> i < int (length xs) then Inr (xs ! nat i)
      else if - int (length xs) \<le> i \<and> i < 0 then Inr (xs ! nat (int (length xs) + i))
      else Inl IndexError)"

text \<open>\<^verbatim>\<open>d[key]\<close> on a dict with a string key.\<close>

definition dict_get :: "dict \<Rightarrow> string \<Rightarrow> exn + pyval" where
  "dict_get d k = (case map_of d k of None \<Rightarrow> Inl KeyError | Some v \<Rightarrow> Inr v)"

text \<open>
  \<^verbatim>\<open>obj[key]\<close> on any object: lists and strings take an integer (a bool is one),
  a dict takes a hashable key, and the keys of a parsed JSON object are strings.
\<close>

fun getitem :: "pyval \<Rightarrow> pyval \<Rightarrow> exn + pyval" where
  "getitem (PList xs) (PInt i) = py_nth xs i"
| "getitem (PList xs) (PBool b) = py_nth xs (if b then 1 else 0)"
| "getitem (PList xs) _ = Inl TypeError"
| "getitem (PStr s) (PInt i) = py_nth (map (\<lambda>c. PStr [c]) s) i"
| "getitem (PStr s) (PBool b) = py_nth (map (\<lambda>c. PStr [c]) s) (if b then 1 else 0)"
| "getitem (PStr s) _ = Inl TypeError"
| "getitem (PDict d) (PStr k) = dict_get d k"
| "getitem (PDict d) (PList _) = Inl TypeError"
| "getitem (PDict d) (PDict _) = Inl TypeError"
| "getitem (PDict d) _ = Inl KeyError"
| "getitem _ _ = Inl TypeError"

text \<open>\<^verbatim>\<open>for x in obj\<close>: the elements of a list, the characters of a string, the keys of a dict.\<close>

fun iterate :: "pyval \<Rightarrow> exn + pyval list" where
  "iterate (PList xs) = Inr xs"
| "iterate (PStr s) = Inr (map (\<lambda>c. PStr [c]) s)"
| "iterate (PDict d) = Inr (map (\<lambda>kv. PStr (fst kv)) d)"
| "iterate _ = Inl TypeError"

text \<open>\<^verbatim>\<open>sum(xs)\<close> over integers and bools.\<close>

fun py_sum :: "pyval list \<Rightarrow> exn + int" where
  "py_sum [] = Inr 0"
| "py_sum (PInt i # xs) = ebind (py_sum xs) (\<lambda>t. Inr (i + t))"
| "py_sum (PBool b # xs) = ebind (py_sum xs) (\<lambda>t. Inr ((if b then 1 else 0) + t))"
| "py_sum (_ # xs) = Inl TypeError"

text \<open>
  \<^verbatim>\<open>list(set(xs))\<close>: unhashable elements raise; equal elements are kept once. Python
  leaves the order of the result open; this model keeps the order of first occurrence.
\<close>

fun hashable :: "pyval \<Rightarrow> bool" where
  "hashable (PList _) = False"
| "hashable (PDict _) = False"
| "hashable _ = True"

fun dedup :: "pyval list \<Rightarrow> pyval list" where
  "dedup [] = []"
| "dedup (x # xs) = x # dedup (filter (\<lambda>y. \<not> py_eq x y) xs)"

definition list_of_set :: "pyval list \<Rightarrow> exn + pyval list" where
  "list_of_set xs = (if list_all hashable xs then Inr (dedup xs) else Inl TypeError)"

text \<open>\<^verbatim>\<open>", ".join(xs)\<close>: every element has to be a string.\<close>

fun py_join :: "string \<Rightarrow> pyval list \<Rightarrow> exn + string" where
  "py_join sep [] = Inr []"
| "py_join sep [PStr s] = Inr s"
| "py_join sep (PStr s # xs) = ebind (py_join sep xs) (\<lambda>r. Inr (s @ sep @ r))"
| "py_join sep (_ # xs) = Inl TypeError"

section \<open>Python strings\<close>

text \<open>
  \<open>split_at sep s\<close> cuts \<open>s\<close> at the first occurrence of \<open>sep\<close>: the text before it
  and the text after it. The string methods the program uses are written with it.
\<close>

fun split_at :: "string \<Rightarrow> string \<Rightarrow> (string \<times> string) option" where
  "split_at sep [] = (if sep = [] then Some ([], []) else None)"
| "split_at sep (c # cs) =
     (if take (length sep) (c # cs) = sep then Some ([], drop (length sep) (c # cs))
      else map_option (\<lambda>ba. (c # fst ba, snd ba)) (split_at sep cs))"

text \<open>\<^verbatim>\<open>sub in s\<close>\<close>

definition contains :: "string \<Rightarrow> string \<Rightarrow> bool" where
  "contains sub s = (split_at sub s \<noteq> None)"

text \<open>\<^verbatim>\<open>s.split(sep)[0]\<close> and \<^verbatim>\<open>s.split(sep)[1]\<close>, for a separator that is not empty.\<close>

definition split_item0 :: "string \<Rightarrow> string \<Rightarrow> string" where
  "split_item0 sep s = (case split_at sep s of None \<Rightarrow> s | Some ba \<Rightarrow> fst ba)"

definition split_item1 :: "string \<Rightarrow> string \<Rightarrow> exn + string" where
  "split_item1 sep s =
     (case split_at sep s of None \<Rightarrow> Inl IndexError | Some ba \<Rightarrow> Inr (split_item0 sep (snd ba)))"

text \<open>\<^verbatim>\<open>s.find(sub)\<close> and \<^verbatim>\<open>s.rfind(sub)\<close>: the index of the first and of the last occurrence, or -1.\<close>

definition py_find :: "string \<Rightarrow> string \<Rightarrow> int" where
  "py_find sub s = (case split_at sub s of None \<Rightarrow> - 1 | Some ba \<Rightarrow> int (length (fst ba)))"

definition py_rfind :: "string \<Rightarrow> string \<Rightarrow> int" where
  "py_rfind sub s =
     (case split_at (rev sub) (rev s) of None \<Rightarrow> - 1
      | Some ba \<Rightarrow> int (length s) - int (length (fst ba)) - int (length sub))"

text \<open>\<^verbatim>\<open>s[a:b]\<close>: indices are clamped to the string, negative ones count from the end.\<close>

definition slice_index :: "nat \<Rightarrow> int \<Rightarrow> nat" where
  "slice_index n i = (if i < 0 then nat (max 0 (int n + i)) else min n (nat i))"

definition py_slice :: "string \<Rightarrow> int \<Rightarrow> int \<Rightarrow> string" where
  "py_slice s a b = (let i = slice_index (length s) a; j = slice_index (length s) b
                     in take (j - i) (drop i s))"

text \<open>\<^verbatim>\<open>s.strip()\<close>: the whitespace of \<^verbatim>\<open>str.isspace\<close> among the first 256 code points.\<close>

definition isspace :: "char \<Rightarrow> bool" where
  "isspace c = (let n = (of_char c :: nat)
                in (9 \<le> n \<and> n \<le> 13) \<or> (28 \<le> n \<and> n \<le> 32) \<or> n = 133 \<or> n = 160)"

definition strip :: "string \<Rightarrow> string" where
  "strip s = rev (dropWhile isspace (rev (dropWhile isspace s)))"

text \<open>\<^verbatim>\<open>key in obj\<close> for a string key: a dict looks among its keys, a list among its
  elements, a string among its substrings; nothing else is a container.\<close>

fun py_contains :: "string \<Rightarrow> pyval \<Rightarrow> exn + bool" where
  "py_contains k (PDict d) = Inr (map_of d k \<noteq> None)"
| "py_contains k (PList xs) = Inr (list_ex (\<lambda>x. py_eq x (PStr k)) xs)"
| "py_contains k (PStr s) = Inr (contains k s)"
| "py_contains k _ = Inl TypeError"

section \<open>The outside world\<close>

text \<open>
  Three things come from outside the program: the replies of the language model
  (\<^verbatim>\<open>self.model.generate_content(prompt)\<close> followed by \<^verbatim>\<open>response.text\<close>: a text or an
  exception), the library function \<^verbatim>\<open>json.loads\<close> (a value or an exception), and the
  random numbers. A prompt is kept as the values written into its template. The \<open>n\<close>-th
  call of an operation of the assistant gets the reply \<open>generate_content env n\<close>, the
  \<open>n\<close>-th random draw is \<open>random env n\<close>.
\<close>

datatype prompt =
    QuestionPrompt int string
  | ExplanationPrompt pyval pyval pyval
  | StudyPlanPrompt int string

record env =
  generate_content :: "nat \<Rightarrow> prompt \<Rightarrow> exn + string"
  json_loads :: "string \<Rightarrow> exn + pyval"
  random :: "nat \<Rightarrow> nat"

section \<open>AIAssistant\<close>

text \<open>\<^verbatim>\<open>AIAssistant._parse_json_from_response\<close>\<close>

definition fenced :: "string \<Rightarrow> exn + string" where
  \<open>fenced text =
     (if contains ''```json'' text
      then ebind (split_item1 ''```json'' text) (\<lambda>part. Inr (split_item0 ''```'' part))
      else Inr text)\<close>

definition parse_json_from_response :: "(string \<Rightarrow> exn + pyval) \<Rightarrow> string \<Rightarrow> exn + pyval" where
  \<open>parse_json_from_response loads text0 =
     ebind (fenced text0) (\<lambda>text.
       case loads (strip text) of
         Inr v \<Rightarrow> Inr v
       | Inl e \<Rightarrow>
           if e = JSONDecodeError then
             (let json_start = py_find ''{'' text;
                  json_end = py_rfind ''}'' text + 1
              in if json_start \<noteq> - 1 \<and> json_end \<noteq> 0 then
                   (let json_str = py_slice text json_start json_end
                    in case loads json_str of
                         Inr v \<Rightarrow> Inr v
                       | Inl e' \<Rightarrow> if e' = JSONDecodeError then Inr PNone else Inl e')
                 else Inr PNone)
           else Inl e)\<close>

text \<open>\<^verbatim>\<open>AIAssistant.generate_personalized_question\<close>; \<open>has_model\<close> says that
  \<^verbatim>\<open>self.model\<close> is set, \<open>n\<close> numbers the call.\<close>

definition generate_personalized_question ::
  "env \<Rightarrow> bool \<Rightarrow> nat \<Rightarrow> int \<Rightarrow> pyval list option \<Rightarrow> exn + pyval" where
  "generate_personalized_question env has_model n difficulty user_weak_topics =
     (if \<not> has_model then Inr PNone
      else try_except
        (ebind (case user_weak_topics of
                  None \<Rightarrow> Inr ''general first aid''
                | Some ts \<Rightarrow> if ts = [] then Inr ''general first aid'' else py_join '', '' ts)
           (\<lambda>weak_areas.
         ebind (generate_content env n (QuestionPrompt difficulty weak_areas))
           (\<lambda>response_text.
         parse_json_from_response (json_loads env) response_text)))
        (\<lambda>e. Inr PNone))"

text \<open>\<^verbatim>\<open>AIAssistant.get_detailed_explanation\<close>\<close>

definition explanation_no_model :: string where
  "explanation_no_model = ''AI explanation unavailable. Please check your API key setup.''"

definition explanation_error :: string where
  "explanation_error = ''AI explanation unavailable due to an error.''"

definition get_detailed_explanation ::
  "env \<Rightarrow> bool \<Rightarrow> nat \<Rightarrow> pyval \<Rightarrow> pyval \<Rightarrow> pyval \<Rightarrow> pyval \<Rightarrow> exn + string" where
  "get_detailed_explanation env has_model n question user_answer_idx correct_answer_idx options =
     (if \<not> has_model then Inr explanation_no_model
      else try_except
        (ebind (getitem options user_answer_idx) (\<lambda>user_answer_text.
         ebind (getitem options correct_answer_idx) (\<lambda>correct_answer_text.
         ebind (generate_content env n
                  (ExplanationPrompt question user_answer_text correct_answer_text))
           (\<lambda>response_text.
         Inr (strip response_text)))))
        (\<lambda>e. Inr explanation_error))"

text \<open>\<^verbatim>\<open>AIAssistant.generate_study_plan\<close>\<close>

definition study_plan_no_model :: string where
  "study_plan_no_model = ''AI study plan unavailable. Please check your API key setup.''"

definition study_plan_error :: string where
  "study_plan_error = ''AI study plan unavailable due to an error.''"

definition generate_study_plan ::
  "env \<Rightarrow> bool \<Rightarrow> nat \<Rightarrow> pyval list \<Rightarrow> int \<Rightarrow> exn + string" where
  "generate_study_plan env has_model n weak_topics score =
     (if \<not> has_model then Inr study_plan_no_model
      else try_except
        (ebind (if weak_topics \<noteq> [] then py_join '', '' weak_topics
                else Inr ''General improvement needed'')
           (\<lambda>weak_areas.
         ebind (generate_content env n (StudyPlanPrompt score weak_areas)) (\<lambda>response_text.
         Inr (strip response_text))))
        (\<lambda>e. Inr study_plan_error))"

section \<open>The question bank\<close>

definition QUESTION_BANK :: "dict list" where
  \<open>QUESTION_BANK = [
   [(''question'', PStr ''What should you do first when someone is unconscious but breathing normally?''),
    (''options'', PList [PStr ''Give them water'',
       PStr ''Check for a pulse'',
       PStr ''Place them in the recovery position'',
       PStr ''Slap their face to wake them up'']),
    (''answer'', PInt 2),
    (''difficulty'', PInt 1),
    (''tip'', PStr ''The recovery position helps keep their airway open and clear.''),
    (''topic'', PStr ''unconsciousness'')],
   [(''question'', PStr ''What is the first step for treating a minor cut or scrape?''),
    (''options'', PList [PStr ''Apply a sterile dressing'',
       PStr ''Wash the area with soap and water'',
       PStr ''Apply antibiotic ointment'',
       PStr ''Cover it with a large bandage'']),
    (''answer'', PInt 1),
    (''difficulty'', PInt 1),
    (''tip'', PStr ''Cleaning a wound first helps prevent infection.''),
    (''topic'', PStr ''wound care'')],
   [(''question'', PStr ''For an adult nosebleed, what is the correct action?''),
    (''options'', PList [PStr ''Tilt the head back and pinch the bridge of the nose'',
       PStr ''Lie down flat'',
       PStr ''Pinch the soft part of the nose and lean forward'',
       PStr ''Stuff cotton deep into the nostril'']),
    (''answer'', PInt 2),
    (''difficulty'', PInt 1),
    (''tip'', PStr ''Leaning forward prevents blood from going down the throat.''),
    (''topic'', PStr ''bleeding'')],
   [(''question'', PStr ''How should you help someone who is choking but can still cough?''),
    (''options'', PList [PStr ''Hit their back hard'',
       PStr ''Encourage them to keep coughing'',
       PStr ''Give abdominal thrusts'',
       PStr ''Give them water'']),
    (''answer'', PInt 1),
    (''difficulty'', PInt 1),
    (''tip'', PStr ''Coughing is the body's natural way to clear blockages.''),
    (''topic'', PStr ''choking'')],
   [(''question'', PStr ''What should you apply to a minor burn immediately?''),
    (''options'', PList [PStr ''Ice'',
       PStr ''Butter'',
       PStr ''Cool running water for 10-20 minutes'',
       PStr ''Bandage tightly'']),
    (''answer'', PInt 2),
    (''difficulty'', PInt 1),
    (''tip'', PStr ''Cool water stops the burning process and reduces pain.''),
    (''topic'', PStr ''burns'')],
   [(''question'', PStr ''A person has chest pain spreading to their arms and is sweating. What should you do first while waiting for an ambulance?''),
    (''options'', PList [PStr ''Give them a sugary drink'',
       PStr ''Help them into a comfortable position (e.g., half-sitting)'',
       PStr ''Make them walk around to improve circulation'',
       PStr ''Give them a paper bag to breathe into'']),
    (''answer'', PInt 1),
    (''difficulty'', PInt 2),
    (''tip'', PStr ''Keeping a potential heart attack victim calm and comfortable reduces strain on the heart. Call 911 immediately.''),
    (''topic'', PStr ''heart attack'')],
   [(''question'', PStr ''How do you control severe bleeding from a limb wound after applying direct pressure doesn't work?''),
    (''options'', PList [PStr ''Wash the wound with water'',
       PStr ''Apply a tourniquet above the wound'',
       PStr ''Apply more dressings on top of the first'',
       PStr ''Remove the soaked dressing and apply a new one'']),
    (''answer'', PInt 2),
    (''difficulty'', PInt 2),
    (''tip'', PStr ''Do not remove the original dressing; add more on top to maintain pressure.''),
    (''topic'', PStr ''bleeding'')],
   [(''question'', PStr ''What is the correct depth for chest compressions on an adult during CPR?''),
    (''options'', PList [PStr ''About 1 inch (2.5 cm)'',
       PStr ''At least 2 inches (5 cm)'',
       PStr ''About 4 inches (10 cm)'',
       PStr ''As deep as you can push'']),
    (''answer'', PInt 1),
    (''difficulty'', PInt 2),
    (''tip'', PStr ''2 inches (5 cm) is the standard depth to effectively circulate blood.''),
    (''topic'', PStr ''CPR'')],
   [(''question'', PStr ''During a seizure, what is a key safety measure you should take for the person?''),
    (''options'', PList [PStr ''Hold them down firmly to stop the shaking'',
       PStr ''Put something in their mouth to prevent tongue biting'',
       PStr ''Clear the area of hard or sharp objects'',
       PStr ''Try to give them water immediately after'']),
    (''answer'', PInt 2),
    (''difficulty'', PInt 2),
    (''tip'', PStr ''Protecting from injury is key. Never restrain them or put anything in their mouth.''),
    (''topic'', PStr ''seizures'')],
   [(''question'', PStr ''What does 'RICE' stand for when treating sprains and strains?''),
    (''options'', PList [PStr ''Run, Ice, Call, Emergency'',
       PStr ''Rest, Ice, Compression, Elevation'',
       PStr ''Reassure, Inspect, Cover, Evacuate'',
       PStr ''Rotate, Isolate, Cool, Examine'']),
    (''answer'', PInt 1),
    (''difficulty'', PInt 2),
    (''tip'', PStr ''RICE is the standard procedure for managing soft tissue injuries.''),
    (''topic'', PStr ''sprains'')],
   [(''question'', PStr ''A person is pale, cold, clammy, and confused after an injury. They are likely in shock. What should you do?''),
    (''options'', PList [PStr ''Give them a hot drink'',
       PStr ''Have them sit up straight'',
       PStr ''Lay them down and elevate their legs (if no leg injury)'',
       PStr ''Walk them around slowly'']),
    (''answer'', PInt 2),
    (''difficulty'', PInt 3),
    (''tip'', PStr ''Elevating the legs helps blood flow back to vital organs in cases of shock.''),
    (''topic'', PStr ''shock'')],
   [(''question'', PStr ''What does the 'T' in the FAST acronym for stroke recognition stand for?''),
    (''options'', PList [PStr ''Temperature'',
       PStr ''Talk'',
       PStr ''Time'',
       PStr ''Tingling'']),
    (''answer'', PInt 2),
    (''difficulty'', PInt 3),
    (''tip'', PStr ''Time to call emergency services is critical for stroke outcomes. (F-Face, A-Arms, S-Speech, T-Time).''),
    (''topic'', PStr ''stroke'')],
   [(''question'', PStr ''What is the standard ratio of chest compressions to rescue breaths for a single rescuer performing CPR on an adult?''),
    (''options'', PList [PStr ''15 compressions to 2 breaths'',
       PStr ''30 compressions to 2 breaths'',
       PStr ''5 compressions to 1 breath'',
       PStr ''100 compressions with no breaths'']),
    (''answer'', PInt 1),
    (''difficulty'', PInt 3),
    (''tip'', PStr ''30:2 is the universal ratio for adult CPR to balance circulation and oxygenation.''),
    (''topic'', PStr ''CPR'')],
   [(''question'', PStr ''A person is having a severe allergic reaction (anaphylaxis) and has a prescribed epinephrine auto-injector (EpiPen). What should you do?''),
    (''options'', PList [PStr ''Wait to see if they get better on their own'',
       PStr ''Help them use the auto-injector and then call 911'',
       PStr ''Give them an antihistamine pill and wait'',
       PStr ''Lay them flat and give them water'']),
    (''answer'', PInt 1),
    (''difficulty'', PInt 3),
    (''tip'', PStr ''Anaphylaxis is a life-threatening emergency. Use the EpiPen immediately and always call 911.''),
    (''topic'', PStr ''allergic reactions'')],
   [(''question'', PStr ''If you suspect someone has a spinal injury after a fall, what is the most important principle to follow?''),
    (''options'', PList [PStr ''Help them get up and walk to a chair'',
       PStr ''Keep their head, neck, and back perfectly still'',
       PStr ''Roll them into the recovery position immediately'',
       PStr ''Give them a pillow to make them comfortable'']),
    (''answer'', PInt 1),
    (''difficulty'', PInt 3),
    (''tip'', PStr ''Preventing movement is crucial to avoid causing further damage to the spinal cord.''),
    (''topic'', PStr ''spinal injuries'')]]\<close>

section \<open>QuizGame\<close>

datatype screen = Home | Question | Feedback | AIExplanation | Summary | StudyPlan

text \<open>
  An event of the window is kept as the button its mouse press lands on, if any. The
  rectangles of the buttons that one screen tests do not overlap; a mouse move, a press
  beside every button and the quit event are \<open>Other\<close>.
\<close>

datatype button =
    StartButton
  | AIModeButton
  | OptionButton nat
  | AIExplanationButton
  | ContinueButton
  | RetakeButton
  | StudyPlanButton

datatype event = Click button | Other

text \<open>
  The fields of \<^verbatim>\<open>QuizGame\<close> that the event handlers read. The dicts live in \<open>store\<close>:
  the entries of \<^verbatim>\<open>QUESTION_BANK\<close> at the addresses below its length, each accepted
  generated item behind them, and \<open>questions\<close> holds addresses, since the round shares
  its dicts with the bank and \<^verbatim>\<open>handle_answer\<close> writes into them. \<open>ai_calls\<close> and
  \<open>rand_calls\<close> count the calls made to the outside world. Two fields are history only and
  are read by no operation: \<open>requests\<close> lists the difficulty argument of every call of
  \<^verbatim>\<open>generate_personalized_question\<close>, and \<open>submissions\<close> lists, for the current round, the
  selected index and the item of every call of \<^verbatim>\<open>handle_answer\<close> that came to its end.
  Fonts, colours, the feedback text and the hover flags belong to the drawing code.
\<close>

record game =
  has_model :: bool
  store :: "dict list"
  state :: screen
  current_difficulty :: int
  questions :: "nat list"
  index :: int
  score :: int
  wrong_topics :: "pyval list"
  ai_explanation :: string
  study_plan :: string
  last_user_answer :: int
  option_buttons :: "pyval list"
  ai_mode :: bool
  ai_calls :: nat
  rand_calls :: nat
  requests :: "int list"
  submissions :: "(int \<times> dict) list"

definition total_questions_in_round :: int where
  "total_questions_in_round = 10"

text \<open>\<^verbatim>\<open>QuizGame.__init__\<close>; the argument says whether the assistant got its model.\<close>

definition init_game :: "bool \<Rightarrow> game" where
  "init_game m =
     \<lparr>has_model = m, store = QUESTION_BANK, state = Home, current_difficulty = 1,
      questions = [], index = - 1, score = 0, wrong_topics = [], ai_explanation = [],
      study_plan = [], last_user_answer = - 1, option_buttons = [], ai_mode = False,
      ai_calls = 0, rand_calls = 0, requests = [], submissions = []\<rparr>"

text \<open>The addresses of the bank, in the order of \<^verbatim>\<open>QUESTION_BANK\<close>.\<close>

definition bank_addrs :: "nat list" where
  "bank_addrs = [0..<length QUESTION_BANK]"

text \<open>\<^verbatim>\<open>q in self.questions\<close> for the dict at address \<open>a\<close>: the same object, or an equal one.\<close>

definition py_in :: "dict list \<Rightarrow> nat \<Rightarrow> nat list \<Rightarrow> bool" where
  "py_in st a qs = list_ex (\<lambda>b. b = a \<or> py_eq (PDict (st ! b)) (PDict (st ! a))) qs"

text \<open>\<^verbatim>\<open>[q for q in QUESTION_BANK if q not in self.questions]\<close>\<close>

definition unused_bank :: "game \<Rightarrow> nat list" where
  "unused_bank s = filter (\<lambda>a. \<not> py_in (store s) a (questions s)) bank_addrs"

text \<open>
  \<^verbatim>\<open>random.choice\<close>, \<^verbatim>\<open>random.sample\<close> and \<^verbatim>\<open>random.shuffle\<close>, from the draws
  \<open>rnd c\<close>, \<open>rnd (c + 1)\<close>, ...: a sample takes one position of what is left of the pool
  after the other, and a shuffle is a sample of the whole list.
\<close>

definition choice :: "(nat \<Rightarrow> nat) \<Rightarrow> nat \<Rightarrow> 'a list \<Rightarrow> 'a" where
  "choice rnd c pool = pool ! (rnd c mod length pool)"

fun sample :: "(nat \<Rightarrow> nat) \<Rightarrow> nat \<Rightarrow> 'a list \<Rightarrow> nat \<Rightarrow> 'a list" where
  "sample rnd c pool 0 = []"
| "sample rnd c pool (Suc k) =
     (if pool = [] then []
      else (let i = rnd c mod length pool
            in pool ! i # sample rnd (Suc c) (take i pool @ drop (Suc i) pool) k))"

definition shuffle :: "(nat \<Rightarrow> nat) \<Rightarrow> nat \<Rightarrow> 'a list \<Rightarrow> 'a list" where
  "shuffle rnd c xs = sample rnd c xs (length xs)"

text \<open>\<^verbatim>\<open>QuizGame.adjust_difficulty\<close>\<close>

definition recent_answers :: "game \<Rightarrow> pyval list" where
  "recent_answers s =
     concat (map (\<lambda>a. case map_of (store s ! a) ''correct'' of None \<Rightarrow> [] | Some v \<Rightarrow> [v])
               (drop (length (questions s) - 3) (questions s)))"

definition adjust_difficulty :: "game \<Rightarrow> exn + game" where
  "adjust_difficulty s =
     (if length (questions s) > 3 then
        (if length (recent_answers s) = 3 then
           ebind (py_sum (recent_answers s)) (\<lambda>total.
             let performance = real_of_int total / 3 in
             if performance > 0.7 \<and> current_difficulty s < 3 then
               Inr (s\<lparr>current_difficulty := current_difficulty s + 1\<rparr>)
             else if performance < 0.4 \<and> current_difficulty s > 1 then
               Inr (s\<lparr>current_difficulty := current_difficulty s - 1\<rparr>)
             else Inr s)
         else Inr s)
      else Inr s)"

text \<open>\<^verbatim>\<open>QuizGame.next_question\<close>: one button for each option of the item.\<close>

definition next_question :: "game \<Rightarrow> exn + game" where
  "next_question s =
     (let s1 = s\<lparr>index := index s + 1\<rparr> in
      if index s1 \<ge> int (length (questions s1)) then Inr (s1\<lparr>state := Summary\<rparr>)
      else
        ebind (py_nth (questions s1) (index s1)) (\<lambda>a.
        ebind (dict_get (store s1 ! a) ''options'') (\<lambda>opts.
        ebind (iterate opts) (\<lambda>buttons.
        Inr (s1\<lparr>state := Question, option_buttons := buttons\<rparr>)))))"

text \<open>\<^verbatim>\<open>QuizGame.handle_answer\<close>\<close>

definition handle_answer :: "int \<Rightarrow> game \<Rightarrow> exn + game" where
  "handle_answer selected_index s =
     ebind (py_nth (questions s) (index s)) (\<lambda>a.
     let current_q = store s ! a;
         s1 = s\<lparr>last_user_answer := selected_index\<rparr> in
     ebind (dict_get current_q ''answer'') (\<lambda>answer.
     if py_eq (PInt selected_index) answer then
       Inr (s1\<lparr>score := score s1 + 1,
               store := (store s1)[a := AList.update ''correct'' (PInt 1) current_q],
               state := Feedback,
               submissions := submissions s1 @ [(selected_index, current_q)]\<rparr>)
     else
       (let s2 = (case map_of current_q ''topic'' of
                    None \<Rightarrow> s1
                  | Some t \<Rightarrow> s1\<lparr>wrong_topics := wrong_topics s1 @ [t]\<rparr>) in
        ebind (dict_get current_q ''options'') (\<lambda>opts.
        ebind (getitem opts answer) (\<lambda>correct_answer.
        Inr (s2\<lparr>store := (store s2)[a := AList.update ''correct'' (PInt 0) current_q],
                state := Feedback,
                submissions := submissions s2 @ [(selected_index, current_q)]\<rparr>))))))"

text \<open>\<^verbatim>\<open>QuizGame.get_ai_explanation\<close>\<close>

definition get_ai_explanation :: "env \<Rightarrow> game \<Rightarrow> exn + game" where
  "get_ai_explanation env s =
     ebind (py_nth (questions s) (index s)) (\<lambda>a.
     let current_q = store s ! a in
     ebind (dict_get current_q ''question'') (\<lambda>question.
     ebind (dict_get current_q ''answer'') (\<lambda>answer.
     ebind (dict_get current_q ''options'') (\<lambda>opts.
     ebind (get_detailed_explanation env (has_model s) (ai_calls s)
              question (PInt (last_user_answer s)) answer opts) (\<lambda>txt.
     Inr (s\<lparr>ai_explanation := txt, state := AIExplanation, ai_calls := ai_calls s + 1\<rparr>))))))"

text \<open>\<^verbatim>\<open>QuizGame.request_study_plan\<close>\<close>

definition no_weak_areas :: string where
  "no_weak_areas =
     ''You did great! No specific weak areas were identified. Keep up the good work!''"

definition request_study_plan :: "env \<Rightarrow> game \<Rightarrow> exn + game" where
  "request_study_plan env s =
     (if wrong_topics s = [] then Inr (s\<lparr>study_plan := no_weak_areas, state := StudyPlan\<rparr>)
      else
        ebind (list_of_set (wrong_topics s)) (\<lambda>unique_weak_topics.
        ebind (generate_study_plan env (has_model s) (ai_calls s) unique_weak_topics (score s))
          (\<lambda>plan.
        Inr (s\<lparr>study_plan := plan, state := StudyPlan, ai_calls := ai_calls s + 1\<rparr>))))"

text \<open>
  \<^verbatim>\<open>QuizGame.start_quiz\<close>. One turn of its loop over the five generated questions:
  the reply of the assistant is accepted when it is truthy and \<^verbatim>\<open>'question' in\<close> it
  holds, gets its topic and joins the round as a new dict; otherwise an unused item of the
  bank is drawn, if there is one.
\<close>

definition accepted :: "pyval \<Rightarrow> exn + bool" where
  "accepted ai_question =
     (if truthy ai_question then py_contains ''question'' ai_question else Inr False)"

definition set_topic :: "pyval \<Rightarrow> exn + dict" where
  "set_topic ai_question =
     (case ai_question of
        PDict d \<Rightarrow> Inr (AList.update ''topic'' (PStr ''ai_generated'') d)
      | _ \<Rightarrow> Inl TypeError)"

definition ai_turn :: "env \<Rightarrow> pyval list option \<Rightarrow> game \<Rightarrow> exn + game" where
  "ai_turn env weak_topics s =
     ebind (generate_personalized_question env (has_model s) (ai_calls s)
              (current_difficulty s) weak_topics) (\<lambda>ai_question.
     let s1 = s\<lparr>ai_calls := ai_calls s + 1,
                requests := requests s @ [current_difficulty s]\<rparr> in
     ebind (accepted ai_question) (\<lambda>ok.
     if ok then
       ebind (set_topic ai_question) (\<lambda>d.
       Inr (s1\<lparr>store := store s1 @ [d], questions := questions s1 @ [length (store s1)]\<rparr>))
     else
       (let fallback_pool = unused_bank s1 in
        if fallback_pool \<noteq> [] then
          Inr (s1\<lparr>questions := questions s1 @ [choice (random env) (rand_calls s1) fallback_pool],
                  rand_calls := rand_calls s1 + 1\<rparr>)
        else Inr s1)))"

fun ai_turns :: "env \<Rightarrow> pyval list option \<Rightarrow> nat \<Rightarrow> game \<Rightarrow> exn + game" where
  "ai_turns env weak_topics 0 s = Inr s"
| "ai_turns env weak_topics (Suc n) s =
     ebind (ai_turn env weak_topics s) (ai_turns env weak_topics n)"

text \<open>The rest of the round comes from the bank; then the round is shuffled.\<close>

definition fill_from_bank :: "env \<Rightarrow> game \<Rightarrow> exn + game" where
  "fill_from_bank env s =
     (let needed = total_questions_in_round - int (length (questions s));
          bank_pool = unused_bank s in
      if int (length bank_pool) < needed then Inr (s\<lparr>questions := questions s @ bank_pool\<rparr>)
      else if needed < 0 then Inl ValueError
      else Inr (s\<lparr>questions := questions s @ sample (random env) (rand_calls s) bank_pool (nat needed),
                   rand_calls := rand_calls s + nat needed\<rparr>))"

definition start_quiz :: "env \<Rightarrow> bool \<Rightarrow> game \<Rightarrow> exn + game" where
  "start_quiz env ai s =
     (let s1 = s\<lparr>ai_mode := (ai \<and> has_model s), questions := [], current_difficulty := 1\<rparr> in
      ebind (if wrong_topics s1 \<noteq> [] then ebind (list_of_set (wrong_topics s1)) (\<lambda>ts. Inr (Some ts))
             else Inr None) (\<lambda>weak_topics.
      ebind (if ai_mode s1 then ai_turns env weak_topics 5 s1 else Inr s1) (\<lambda>s2.
      ebind (fill_from_bank env s2) (\<lambda>s3.
      next_question
        (s3\<lparr>questions := shuffle (random env) (rand_calls s3) (questions s3),
            rand_calls := rand_calls s3 + length (questions s3),
            index := - 1, score := 0, wrong_topics := [], submissions := []\<rparr>)))))"

text \<open>\<^verbatim>\<open>QuizGame.handle_event\<close>\<close>

definition handle_event :: "env \<Rightarrow> event \<Rightarrow> game \<Rightarrow> exn + game" where
  "handle_event env ev s =
     (case state s of
        Home \<Rightarrow>
          ebind (if ev = Click StartButton then start_quiz env False s else Inr s) (\<lambda>s1.
          if has_model s1 then
            (if ev = Click AIModeButton then start_quiz env True s1 else Inr s1)
          else Inr s1)
      | Question \<Rightarrow>
          (case ev of
             Click (OptionButton i) \<Rightarrow>
               if i < length (option_buttons s) then handle_answer (int i) s else Inr s
           | _ \<Rightarrow> Inr s)
      | Feedback \<Rightarrow>
          ebind (py_nth (questions s) (index s)) (\<lambda>a.
          ebind (dict_get (store s ! a) ''answer'') (\<lambda>answer.
          ebind (if \<not> py_eq (PInt (last_user_answer s)) answer \<and> has_model s then
                   (if ev = Click AIExplanationButton then get_ai_explanation env s else Inr s)
                 else Inr s) (\<lambda>s1.
          if ev = Click ContinueButton then ebind (adjust_difficulty s1) next_question
          else Inr s1)))
      | AIExplanation \<Rightarrow>
          (if ev = Click ContinueButton then ebind (adjust_difficulty s) next_question
           else Inr s)
      | Summary \<Rightarrow>
          ebind (if ev = Click RetakeButton then start_quiz env (ai_mode s) s else Inr s) (\<lambda>s1.
          if has_model s1 \<and> ev = Click StudyPlanButton then request_study_plan env s1
          else Inr s1)
      | StudyPlan \<Rightarrow>
          (if ev = Click RetakeButton then start_quiz env (ai_mode s) s else Inr s))"

text \<open>
  The event loop of \<^verbatim>\<open>QuizGame.run\<close> hands the events to \<^verbatim>\<open>handle_event\<close> one after
  the other; an exception that leaves \<^verbatim>\<open>handle_event\<close> ends the program.
\<close>

fun run :: "env \<Rightarrow> event list \<Rightarrow> game \<Rightarrow> exn + game" where
  "run env [] s = Inr s"
| "run env (ev # evs) s = ebind (handle_event env ev s) (run env evs)"

section \<open>Notions of the specification\<close>

text \<open>
  The substring that spans the outermost pair of braces, from the first opening brace to
  the last closing one, for a text that has both.
\<close>

definition between_braces :: "string \<Rightarrow> string option" where
  "between_braces t =
     (if CHR ''{'' \<in> set t \<and> CHR ''}'' \<in> set t
      then Some (dropWhile (\<lambda>c. c \<noteq> CHR ''{'')
                   (rev (dropWhile (\<lambda>c. c \<noteq> CHR ''}'') (rev t))))
      else None)"

text \<open>
  A submission is the selected index together with the item it answers. It is correct when
  the index equals the answer of the item; the topic it misses is the one of the item, if
  the submission is not correct and the item has a topic.
\<close>

definition answered_correctly :: "int \<times> dict \<Rightarrow> bool" where
  "answered_correctly sub =
     (case map_of (snd sub) ''answer'' of
        None \<Rightarrow> False
      | Some answer \<Rightarrow> py_eq (PInt (fst sub)) answer)"

definition missed_topic :: "int \<times> dict \<Rightarrow> pyval list" where
  "missed_topic sub =
     (if answered_correctly sub then []
      else (case map_of (snd sub) ''topic'' of None \<Rightarrow> [] | Some t \<Rightarrow> [t]))"

section \<open>Invariants\<close>

text \<open>The score and the missed topics agree with the submissions of the round.\<close>

definition tally :: "game \<Rightarrow> bool" where
  "tally s \<longleftrightarrow> score s = int (length (filter answered_correctly (submissions s)))
       \<and> wrong_topics s = concat (map missed_topic (submissions s))"

text \<open>
  A game without a model: it has made no call to the assistant and is not in the adaptive
  mode, and on the feedback screen the current item and its answer can be read.
\<close>

definition unconfigured :: "game \<Rightarrow> bool" where
  "unconfigured s \<longleftrightarrow>
     \<not> has_model s \<and> \<not> ai_mode s \<and> ai_calls s = 0
     \<and> (state s = Feedback \<longrightarrow>
          (\<exists>a answer. py_nth (questions s) (index s) = Inr a
             \<and> dict_get (store s ! a) ''answer'' = Inr answer))"

text \<open>The result of an operation, with the model set in the state it returns.\<close>

definition with_model :: "exn + game \<Rightarrow> exn + game" where
  "with_model r = map_sum id (\<lambda>t. t\<lparr>has_model := True\<rparr>) r"

section \<open>Example runs\<close>

text \<open>
  A world without a language model whose random draws are all 0: a sample then takes the
  pool in its order, and a shuffle keeps the order of the round.
\<close>

definition offline :: env where
  "offline = \<lparr>generate_content = (\<lambda>n p. Inl (OtherException ''offline'')),
              json_loads = (\<lambda>s. Inl JSONDecodeError),
              random = (\<lambda>n. 0)\<rparr>"

text \<open>Start a standard round and answer its first three questions, each correctly.\<close>

definition three_correct :: "event list" where
  "three_correct =
     [Click StartButton,
      Click (OptionButton 2), Click ContinueButton,
      Click (OptionButton 1), Click ContinueButton,
      Click (OptionButton 2), Click ContinueButton]"

text \<open>A whole standard round with every question answered correctly.\<close>

definition full_round :: "event list" where
  "full_round =
     [Click StartButton,
      Click (OptionButton 2), Click ContinueButton,
      Click (OptionButton 1), Click ContinueButton,
      Click (OptionButton 2), Click ContinueButton,
      Click (OptionButton 1), Click ContinueButton,
      Click (OptionButton 2), Click ContinueButton,
      Click (OptionButton 1), Click ContinueButton,
      Click (OptionButton 2), Click ContinueButton,
      Click (OptionButton 1), Click ContinueButton,
      Click (OptionButton 2), Click ContinueButton,
      Click (OptionButton 1), Click ContinueButton]"

text \<open>
  A reply that is one JSON object and holds the marker of a fenced block inside a string.
  \<open>loads_fenced_reply\<close> gives what \<^verbatim>\<open>json.loads\<close> gives on the reply, and
  \<^verbatim>\<open>JSONDecodeError\<close> elsewhere; the only other string that the routine hands to it
  for this reply is the tail \<^verbatim>\<open>mean?"}\<close>, which is not JSON.
\<close>

definition fenced_reply :: string where
  \<open>fenced_reply = ''{"question": "What does ```json mean?"}''\<close>

definition loads_fenced_reply :: "string \<Rightarrow> exn + pyval" where
  \<open>loads_fenced_reply s =
     (if s = fenced_reply then Inr (PDict [(''question'', PStr ''What does ```json mean?'')])
      else Inl JSONDecodeError)\<close>

text \<open>
  A world whose model answers every request with the same well-formed item, and one whose
  model answers with an object of a question and two options only. \<open>json_loads\<close> is what
  \<^verbatim>\<open>json.loads\<close> gives on that reply, the one string it is handed in these worlds.
\<close>

definition generated_reply :: string where
  \<open>generated_reply =
     ''{"question": "Q?", "options": ["a", "b", "c", "d"], "answer": 0, "tip": "t", "difficulty": 1}''\<close>

definition generated_item :: dict where
  "generated_item =
     [(''question'', PStr ''Q?''),
      (''options'', PList [PStr ''a'', PStr ''b'', PStr ''c'', PStr ''d'']),
      (''answer'', PInt 0),
      (''tip'', PStr ''t''),
      (''difficulty'', PInt 1)]"

definition repeating :: env where
  "repeating = \<lparr>generate_content = (\<lambda>n p. Inr generated_reply),
                json_loads = (\<lambda>s. if s = generated_reply then Inr (PDict generated_item)
                                   else Inl JSONDecodeError),
                random = (\<lambda>n. 0)\<rparr>"

definition partial_reply :: string where
  \<open>partial_reply = ''{"question": "Q?", "options": ["a", "b"]}''\<close>

definition partial_item :: dict where
  "partial_item = [(''question'', PStr ''Q?''), (''options'', PList [PStr ''a'', PStr ''b''])]"

definition incomplete :: env where
  "incomplete = \<lparr>generate_content = (\<lambda>n p. Inr partial_reply),
                 json_loads = (\<lambda>s. if s = partial_reply then Inr (PDict partial_item)
                                    else Inl JSONDecodeError),
                 random = (\<lambda>n. 0)\<rparr>"

text \<open>The state at the end of \<open>full_round\<close> in the world \<open>offline\<close>.\<close>

definition after_full_round :: game where
  "after_full_round =
     \<lparr>has_model = False,
      store = map (AList.update ''correct'' (PInt 1)) (take 10 QUESTION_BANK)
              @ drop 10 QUESTION_BANK,
      state = Summary, current_difficulty = 2,
      questions = [0, 1, 2, 3, 4, 5, 6, 7, 8, 9], index = 10, score = 10,
      wrong_topics = [], ai_explanation = [], study_plan = [], last_user_answer = 1,
      option_buttons = [PStr ''Run, Ice, Call, Emergency'',
                        PStr ''Rest, Ice, Compression, Elevation'',
                        PStr ''Reassure, Inspect, Cover, Evacuate'',
                        PStr ''Rotate, Isolate, Cool, Examine''],
      ai_mode = False, ai_calls = 0, rand_calls = 20, requests = [],
      submissions = zip [2, 1, 2, 1, 2, 1, 2, 1, 2, 1] (take 10 QUESTION_BANK)\<rparr>"

section \<open>Auxiliary facts\<close>

subsection \<open>Exceptions\<close>

lemma ebind_simps [simp]:
  "ebind (Inl e) f = Inl e" "ebind (Inr x) f = f x"
  by (simp_all add: ebind_def)

lemma try_except_simps [simp]:
  "try_except (Inl e) h = h e" "try_except (Inr x) h = Inr x"
  by (simp_all add: try_except_def)

lemma ebind_Inr: "ebind m f = Inr y \<longleftrightarrow> (\<exists>x. m = Inr x \<and> f x = Inr y)"
  by (cases m) simp_all

lemma ebindE:
  assumes "ebind m f = Inr y"
  obtains x where "m = Inr x" "f x = Inr y"
  using assms by (cases m) simp_all

subsection \<open>Strings\<close>

lemma split_at_Some: "split_at sep s = Some (b, a) \<Longrightarrow> s = b @ sep @ a"
proof (induction s arbitrary: b)
  case Nil
  then show ?case by (simp split: if_splits)
next
  case (Cons c cs)
  show ?case
  proof (cases "take (length sep) (c # cs) = sep")
    case True
    with Cons.prems have "b = []" "a = drop (length sep) (c # cs)" by simp_all
    with True show ?thesis by (metis append_Nil append_take_drop_id)
  next
    case False
    with Cons.prems obtain b' where "split_at sep cs = Some (b', a)" "b = c # b'"
      by (cases "split_at sep cs") auto
    with Cons.IH show ?thesis by simp
  qed
qed

lemma split_at_char:
  "split_at [c] s =
     (if c \<in> set s then Some (takeWhile (\<lambda>x. x \<noteq> c) s, tl (dropWhile (\<lambda>x. x \<noteq> c) s)) else None)"
  by (induction s) auto

lemma py_find_char:
  "py_find [c] s = (if c \<in> set s then int (length (takeWhile (\<lambda>x. x \<noteq> c) s)) else - 1)"
  by (simp add: py_find_def split_at_char)

lemma py_rfind_char:
  "py_rfind [c] s =
     (if c \<in> set s then int (length s) - int (length (takeWhile (\<lambda>x. x \<noteq> c) (rev s))) - 1 else - 1)"
  by (simp add: py_rfind_def split_at_char)

lemma rev_dropWhile_rev:
  "rev (dropWhile P (rev t)) = take (length t - length (takeWhile P (rev t))) t"
proof -
  have "rev t = takeWhile P (rev t) @ dropWhile P (rev t)" by simp
  then have "t = rev (dropWhile P (rev t)) @ rev (takeWhile P (rev t))"
    by (metis rev_append rev_rev_ident)
  then show ?thesis
    by (metis append_eq_conv_conj diff_add_inverse2 length_append length_rev)
qed

lemma dropWhile_take:
  "dropWhile P (take n xs) = take (n - length (takeWhile P xs)) (drop (length (takeWhile P xs)) xs)"
proof (induction xs arbitrary: n)
  case Nil
  then show ?case by simp
next
  case (Cons x xs)
  show ?case by (cases n) (simp_all add: Cons.IH)
qed

lemma takeWhile_shorter:
  "x \<in> set xs \<Longrightarrow> \<not> P x \<Longrightarrow> length (takeWhile P xs) < length xs"
  by (induction xs) auto

lemma takeWhile_rev_less:
  "c \<in> set s \<Longrightarrow> length (takeWhile (\<lambda>x. x \<noteq> c) (rev s)) < length s"
  using takeWhile_shorter [of c "rev s" "\<lambda>x. x \<noteq> c"] by simp
  
lemma slice_between_braces:
  assumes "CHR ''{'' \<in> set t" "CHR ''}'' \<in> set t"
  shows "between_braces t = Some (py_slice t (py_find ''{'' t) (py_rfind ''}'' t + 1))"
proof -
  let ?i = "length (takeWhile (\<lambda>x. x \<noteq> CHR ''{'') t)"
  let ?k = "length (takeWhile (\<lambda>x. x \<noteq> CHR ''}'') (rev t))"
  have k: "?k < length t" using assms(2) by (rule takeWhile_rev_less)
  have i: "?i \<le> length t" by (rule length_takeWhile_le)
  have f: "py_find ''{'' t = int ?i" using assms by (simp add: py_find_char)
  have r: "py_rfind ''}'' t + 1 = int (length t - ?k)" using assms k by (simp add: py_rfind_char)
  have "py_slice t (int ?i) (int (length t - ?k)) = take (length t - ?k - ?i) (drop ?i t)"
    using i by (simp add: py_slice_def slice_index_def Let_def min_def)
  then show ?thesis using assms
    by (simp add: between_braces_def f r rev_dropWhile_rev dropWhile_take)
qed

lemma split_at_first:
  "split_at sep s = Some (b, a) \<Longrightarrow> sep \<noteq> [] \<Longrightarrow> split_at sep b = None"
proof (induction s arbitrary: b)
  case Nil
  then show ?case by (simp split: if_splits)
next
  case (Cons c cs)
  show ?case
  proof (cases "take (length sep) (c # cs) = sep")
    case True
    with Cons.prems show ?thesis by simp
  next
    case False
    with Cons.prems obtain b' where b': "split_at sep cs = Some (b', a)" "b = c # b'"
      by (cases "split_at sep cs") auto
    have cs: "cs = b' @ sep @ a" using b'(1) by (rule split_at_Some)
    have "take (length sep) (c # b') \<noteq> sep"
    proof
      assume t: "take (length sep) (c # b') = sep"
      then have "length (take (length sep) (c # b')) = length sep" by simp
      then have le: "length sep \<le> length (c # b')" by simp
      have "take (length sep) ((c # b') @ (sep @ a)) = take (length sep) (c # b')"
        unfolding take_append using le by simp
      then have "take (length sep) (c # cs) = take (length sep) (c # b')"
        using cs by simp
      with t False show False by simp
    qed
    then show ?thesis using Cons.IH [OF b'(1) Cons.prems(2)] b'(2) by simp
  qed
qed

lemma split_item0_prefix: "\<exists>post. s = split_item0 sep s @ post"
proof (cases "split_at sep s")
  case None
  then show ?thesis by (simp add: split_item0_def)
next
  case (Some ba)
  then have "s = fst ba @ sep @ snd ba" using split_at_Some [of sep s "fst ba" "snd ba"] by simp
  then show ?thesis using Some by (auto simp: split_item0_def)
qed

lemma split_item0_free: "sep \<noteq> [] \<Longrightarrow> \<not> contains sep (split_item0 sep s)"
proof (cases "split_at sep s")
  case None
  then show ?thesis by (simp add: split_item0_def contains_def)
next
  case (Some ba)
  assume "sep \<noteq> []"
  then have "split_at sep (fst ba) = None"
    using Some split_at_first [of sep s "fst ba" "snd ba"] by simp
  then show ?thesis using Some by (simp add: split_item0_def contains_def)
qed

lemma fenced_total:
  "\<exists>t. fenced text = Inr t
     \<and> (\<not> contains ''```json'' text \<longrightarrow> t = text)
     \<and> (contains ''```json'' text \<longrightarrow>
          (\<exists>pre post. text = pre @ ''```json'' @ t @ post) \<and> \<not> contains ''```'' t)"
proof (cases "split_at ''```json'' text")
  case None
  then show ?thesis by (simp add: fenced_def contains_def)
next
  case (Some ba)
  define part where "part = split_item0 ''```json'' (snd ba)"
  define t where "t = split_item0 ''```'' part"
  have whole: "text = fst ba @ ''```json'' @ snd ba"
    using Some split_at_Some [of "''```json''" "text" "fst ba" "snd ba"] by simp
  obtain post1 where p1: "snd ba = part @ post1"
    unfolding part_def using split_item0_prefix by blast
  obtain post2 where p2: "part = t @ post2"
    unfolding t_def using split_item0_prefix by blast
  have "text = fst ba @ ''```json'' @ t @ (post2 @ post1)"
    using whole p1 p2 by simp
  then have ex: "\<exists>pre post. text = pre @ ''```json'' @ t @ post" by blast
  have free: "\<not> contains ''```'' t"
    unfolding t_def by (rule split_item0_free) simp
  have "fenced text = Inr t"
    using Some by (simp add: fenced_def contains_def split_item1_def t_def part_def)
  with ex free show ?thesis using Some by (simp add: contains_def)
qed

lemma braces_found:
  "(py_find ''{'' t \<noteq> - 1 \<and> py_rfind ''}'' t + 1 \<noteq> 0)
     = (CHR ''{'' \<in> set t \<and> CHR ''}'' \<in> set t)"
  using takeWhile_rev_less [of "CHR ''}''" t] by (auto simp: py_find_char py_rfind_char)

lemma parse_after_fence:
  assumes "fenced text = Inr t"
  shows "parse_json_from_response loads text =
         (case loads (strip t) of
            Inr v \<Rightarrow> Inr v
          | Inl e \<Rightarrow>
              if e \<noteq> JSONDecodeError then Inl e
              else (case between_braces t of
                      None \<Rightarrow> Inr PNone
                    | Some sub \<Rightarrow>
                        (case loads sub of
                           Inr v \<Rightarrow> Inr v
                         | Inl e' \<Rightarrow> if e' = JSONDecodeError then Inr PNone else Inl e')))"
proof (cases "loads (strip t)")
  case (Inr v)
  then show ?thesis using assms by (simp add: parse_json_from_response_def)
next
  case (Inl e)
  show ?thesis
  proof (cases "e = JSONDecodeError")
    case False
    then show ?thesis using assms Inl by (simp add: parse_json_from_response_def)
  next
    case True
    show ?thesis
    proof (cases "CHR ''{'' \<in> set t \<and> CHR ''}'' \<in> set t")
      case found: True
      then have b: "between_braces t = Some (py_slice t (py_find ''{'' t) (py_rfind ''}'' t + 1))"
        by (simp add: slice_between_braces)
      have c: "py_find ''{'' t \<noteq> - 1 \<and> py_rfind ''}'' t + 1 \<noteq> 0"
        using found braces_found by blast
      show ?thesis
        unfolding parse_json_from_response_def assms ebind_simps Inl b Let_def
        using True c by simp
    next
      case missing: False
      then have b: "between_braces t = None" by (auto simp: between_braces_def)
      have c: "\<not> (py_find ''{'' t \<noteq> - 1 \<and> py_rfind ''}'' t + 1 \<noteq> 0)"
        using missing braces_found by blast
      show ?thesis
        unfolding parse_json_from_response_def assms ebind_simps Inl b Let_def
        using True c by auto
    qed
  qed
qed

subsection \<open>What each operation changes\<close>

lemma run_invariant:
  assumes "run env evs s0 = Inr s" and "P s0"
    and "\<And>t ev t'. P t \<Longrightarrow> handle_event env ev t = Inr t' \<Longrightarrow> P t'"
  shows "P s"
  using assms(1,2)
proof (induction evs arbitrary: s0)
  case Nil
  then show ?case by simp
next
  case (Cons ev evs)
  from Cons.prems(1) obtain t where t: "handle_event env ev s0 = Inr t" "run env evs t = Inr s"
    by (auto simp: ebind_Inr)
  from assms(3) [OF Cons.prems(2) t(1)] have "P t" .
  with Cons.IH t(2) show ?case by blast
qed

lemma next_question_effect:
  assumes "next_question s = Inr s'"
  shows "s' = s\<lparr>index := index s + 1, state := state s', option_buttons := option_buttons s'\<rparr>"
  using assms
  by (auto simp: next_question_def Let_def ebind_Inr split: if_splits)

lemma adjust_difficulty_effect:
  assumes "adjust_difficulty s = Inr s'"
  shows "s' = s\<lparr>current_difficulty := current_difficulty s'\<rparr>"
    and "current_difficulty s' = current_difficulty s
         \<or> (current_difficulty s' = current_difficulty s + 1 \<and> current_difficulty s < 3)
         \<or> (current_difficulty s' = current_difficulty s - 1 \<and> current_difficulty s > 1)"
  using assms
  by (auto simp: adjust_difficulty_def Let_def ebind_Inr split: if_splits)

lemma handle_answer_effect:
  assumes "handle_answer i s = Inr s'"
  shows "s' = s\<lparr>last_user_answer := i, score := score s', store := store s',
                 state := Feedback, wrong_topics := wrong_topics s',
                 submissions := submissions s'\<rparr>"
  using assms
  by (auto simp: handle_answer_def Let_def ebind_Inr split: if_splits option.splits)

lemma get_ai_explanation_effect:
  assumes "get_ai_explanation env s = Inr s'"
  shows "s' = s\<lparr>ai_explanation := ai_explanation s', state := AIExplanation,
                 ai_calls := ai_calls s + 1\<rparr>"
  using assms
  by (auto simp: get_ai_explanation_def Let_def ebind_Inr)

lemma request_study_plan_effect:
  assumes "request_study_plan env s = Inr s'"
  shows "s' = s\<lparr>study_plan := study_plan s', state := StudyPlan, ai_calls := ai_calls s'\<rparr>"
  using assms
  by (auto simp: request_study_plan_def Let_def ebind_Inr split: if_splits)

lemma ai_turn_effect:
  assumes "ai_turn env wt s = Inr s'"
  shows "s' = s\<lparr>ai_calls := ai_calls s + 1,
                 requests := requests s @ [current_difficulty s],
                 store := store s', questions := questions s', rand_calls := rand_calls s'\<rparr>"
  using assms
  by (auto simp: ai_turn_def Let_def ebind_Inr split: if_splits)

lemma ai_turns_effect:
  assumes "ai_turns env wt n s = Inr s'"
  shows "s' = s\<lparr>ai_calls := ai_calls s + n,
                 requests := requests s @ replicate n (current_difficulty s),
                 store := store s', questions := questions s', rand_calls := rand_calls s'\<rparr>"
  using assms
proof (induction n arbitrary: s)
  case 0
  then show ?case by simp
next
  case (Suc n)
  from Suc.prems have "ebind (ai_turn env wt s) (ai_turns env wt n) = Inr s'" by simp
  then obtain t where t: "ai_turn env wt s = Inr t" "ai_turns env wt n t = Inr s'"
    by (rule ebindE)
  obtain st qs rc where a: "t = s\<lparr>ai_calls := ai_calls s + 1,
                 requests := requests s @ [current_difficulty s],
                 store := st, questions := qs, rand_calls := rc\<rparr>"
    by (rule that [OF ai_turn_effect [OF t(1)]])
  obtain st' qs' rc' where b: "s' = t\<lparr>ai_calls := ai_calls t + n,
                 requests := requests t @ replicate n (current_difficulty t),
                 store := st', questions := qs', rand_calls := rc'\<rparr>"
    by (rule that [OF Suc.IH [OF t(2)]])
  show ?case unfolding b a by (simp add: replicate_append_same)
qed

lemma fill_from_bank_effect:
  assumes "fill_from_bank env s = Inr s'"
  shows "s' = s\<lparr>questions := questions s', rand_calls := rand_calls s'\<rparr>"
  using assms
  by (auto simp: fill_from_bank_def Let_def split: if_splits)

lemma start_quiz_cases:
  assumes "start_quiz env ai s = Inr s'"
  obtains wt s2 s3 where
    "(if ai \<and> has_model s
      then ai_turns env wt 5
             (s\<lparr>ai_mode := (ai \<and> has_model s), questions := [], current_difficulty := 1\<rparr>)
      else Inr (s\<lparr>ai_mode := (ai \<and> has_model s), questions := [],
                  current_difficulty := 1\<rparr>)) = Inr s2"
    "fill_from_bank env s2 = Inr s3"
    "next_question (s3\<lparr>questions := shuffle (random env) (rand_calls s3) (questions s3),
            rand_calls := rand_calls s3 + length (questions s3),
            index := - 1, score := 0, wrong_topics := [], submissions := []\<rparr>) = Inr s'"
proof -
  let ?s1 = "s\<lparr>ai_mode := (ai \<and> has_model s), questions := [], current_difficulty := 1\<rparr>"
  from assms have "ebind (if wrong_topics ?s1 \<noteq> []
                         then ebind (list_of_set (wrong_topics ?s1)) (\<lambda>ts. Inr (Some ts))
                         else Inr None) (\<lambda>weak_topics.
      ebind (if ai_mode ?s1 then ai_turns env weak_topics 5 ?s1 else Inr ?s1) (\<lambda>s2.
      ebind (fill_from_bank env s2) (\<lambda>s3.
      next_question
        (s3\<lparr>questions := shuffle (random env) (rand_calls s3) (questions s3),
            rand_calls := rand_calls s3 + length (questions s3),
            index := - 1, score := 0, wrong_topics := [], submissions := []\<rparr>)))) = Inr s'"
    unfolding start_quiz_def Let_def .
  then obtain wt where "ebind (if ai_mode ?s1 then ai_turns env wt 5 ?s1 else Inr ?s1) (\<lambda>s2.
      ebind (fill_from_bank env s2) (\<lambda>s3.
      next_question
        (s3\<lparr>questions := shuffle (random env) (rand_calls s3) (questions s3),
            rand_calls := rand_calls s3 + length (questions s3),
            index := - 1, score := 0, wrong_topics := [], submissions := []\<rparr>))) = Inr s'"
    by (rule ebindE)
  then obtain s2 where s2: "(if ai_mode ?s1 then ai_turns env wt 5 ?s1 else Inr ?s1) = Inr s2"
    and rest: "ebind (fill_from_bank env s2) (\<lambda>s3.
      next_question
        (s3\<lparr>questions := shuffle (random env) (rand_calls s3) (questions s3),
            rand_calls := rand_calls s3 + length (questions s3),
            index := - 1, score := 0, wrong_topics := [], submissions := []\<rparr>)) = Inr s'"
    by (rule ebindE)
  from rest obtain s3 where s3: "fill_from_bank env s2 = Inr s3"
    and nq: "next_question
        (s3\<lparr>questions := shuffle (random env) (rand_calls s3) (questions s3),
            rand_calls := rand_calls s3 + length (questions s3),
            index := - 1, score := 0, wrong_topics := [], submissions := []\<rparr>) = Inr s'"
    by (rule ebindE)
  from s2 have "(if ai \<and> has_model s
      then ai_turns env wt 5 ?s1 else Inr ?s1) = Inr s2"
    by simp
  then show thesis using s3 nq by (rule that)
qed

lemma start_quiz_effect:
  assumes "start_quiz env ai s = Inr s'"
  shows "s' = s\<lparr>ai_mode := (ai \<and> has_model s), current_difficulty := 1,
                 questions := questions s', store := store s', ai_calls := ai_calls s',
                 requests := requests s', rand_calls := rand_calls s',
                 index := 0, score := 0, wrong_topics := [], submissions := [],
                 state := state s', option_buttons := option_buttons s'\<rparr>
         \<and> (requests s' = requests s \<or> requests s' = requests s @ replicate 5 1)"
proof -
  from assms obtain wt s2 s3 where
    s2: "(if ai \<and> has_model s
      then ai_turns env wt 5
             (s\<lparr>ai_mode := (ai \<and> has_model s), questions := [], current_difficulty := 1\<rparr>)
      else Inr (s\<lparr>ai_mode := (ai \<and> has_model s), questions := [],
                  current_difficulty := 1\<rparr>)) = Inr s2"
    and s3: "fill_from_bank env s2 = Inr s3"
    and nq: "next_question (s3\<lparr>questions := shuffle (random env) (rand_calls s3) (questions s3),
            rand_calls := rand_calls s3 + length (questions s3),
            index := - 1, score := 0, wrong_topics := [], submissions := []\<rparr>) = Inr s'"
    by (rule start_quiz_cases)
  obtain st ob where e4: "s' = s3\<lparr>questions := shuffle (random env) (rand_calls s3) (questions s3),
            rand_calls := rand_calls s3 + length (questions s3),
            index := - 1, score := 0, wrong_topics := [], submissions := []\<rparr>
            \<lparr>index := 0, state := st, option_buttons := ob\<rparr>"
    using next_question_effect [OF nq] by (simp add: that)
  obtain q3 r3 where e3: "s3 = s2\<lparr>questions := q3, rand_calls := r3\<rparr>"
    by (rule that [OF fill_from_bank_effect [OF s3]])
  show ?thesis
  proof (cases "ai \<and> has_model s")
    case True
    with s2 have "ai_turns env wt 5
        (s\<lparr>ai_mode := (ai \<and> has_model s), questions := [], current_difficulty := 1\<rparr>) = Inr s2"
      by simp
    from ai_turns_effect [OF this] obtain c2 st2 q2 r2 where
      e2: "s2 = s\<lparr>ai_mode := (ai \<and> has_model s), questions := [], current_difficulty := 1\<rparr>
                \<lparr>ai_calls := c2, requests := requests s @ replicate 5 1,
                 store := st2, questions := q2, rand_calls := r2\<rparr>"
      by (simp add: that)
    show ?thesis unfolding e4 e3 e2 by simp
  next
    case False
    with s2 have e2: "s2 = s\<lparr>ai_mode := (ai \<and> has_model s), questions := [],
        current_difficulty := 1\<rparr>"
      by auto
    show ?thesis unfolding e4 e3 e2 by simp
  qed
qed

lemma handle_event_cases:
  assumes "handle_event env ev s = Inr s'"
  obtains
    (same) "s' = s"
  | (start) ai where "state s = Home \<or> state s = Summary \<or> state s = StudyPlan"
      "ev = Click StartButton \<or> ev = Click AIModeButton \<or> ev = Click RetakeButton"
      "start_quiz env ai s = Inr s'"
  | (answer) i where "state s = Question" "ev = Click (OptionButton i)"
      "i < length (option_buttons s)" "handle_answer (int i) s = Inr s'"
  | (explain) "state s = Feedback" "ev = Click AIExplanationButton" "has_model s"
      "get_ai_explanation env s = Inr s'"
  | (continue) s1 where "state s = Feedback \<or> state s = AIExplanation" "ev = Click ContinueButton"
      "adjust_difficulty s = Inr s1" "next_question s1 = Inr s'"
  | (plan) "state s = Summary" "ev = Click StudyPlanButton" "has_model s"
      "request_study_plan env s = Inr s'"
proof (cases "state s")
  case Home
  with assms show ?thesis
    by (auto simp: handle_event_def ebind_Inr split: if_splits intro: same start)
next
  case Question
  with assms show ?thesis
    by (auto simp: handle_event_def split: if_splits event.splits button.splits
        intro: same answer)
next
  case Feedback
  with assms show ?thesis
    by (auto simp: handle_event_def ebind_Inr split: if_splits intro: same explain continue)
next
  case AIExplanation
  with assms show ?thesis
    by (auto simp: handle_event_def ebind_Inr split: if_splits intro: same continue)
next
  case Summary
  with assms show ?thesis
    by (auto simp: handle_event_def ebind_Inr split: if_splits intro: same start plan)
next
  case StudyPlan
  with assms show ?thesis
    by (auto simp: handle_event_def ebind_Inr split: if_splits intro: same start)
qed

lemma handle_answer_submission:
  assumes "handle_answer i s = Inr s'"
  shows "\<exists>a. py_nth (questions s) (index s) = Inr a
           \<and> submissions s' = submissions s @ [(i, store s ! a)]
           \<and> score s' = score s + (if answered_correctly (i, store s ! a) then 1 else 0)
           \<and> wrong_topics s' = wrong_topics s @ missed_topic (i, store s ! a)
           \<and> store s' = (store s)[a := AList.update ''correct''
                 (PInt (if answered_correctly (i, store s ! a) then 1 else 0)) (store s ! a)]"
proof -
  from assms obtain a where a: "py_nth (questions s) (index s) = Inr a"
    and r1: "(let current_q = store s ! a;
         s1 = s\<lparr>last_user_answer := i\<rparr> in
     ebind (dict_get current_q ''answer'') (\<lambda>answer.
     if py_eq (PInt i) answer then
       Inr (s1\<lparr>score := score s1 + 1,
               store := (store s1)[a := AList.update ''correct'' (PInt 1) current_q],
               state := Feedback,
               submissions := submissions s1 @ [(i, current_q)]\<rparr>)
     else
       (let s2 = (case map_of current_q ''topic'' of
                    None \<Rightarrow> s1
                  | Some t \<Rightarrow> s1\<lparr>wrong_topics := wrong_topics s1 @ [t]\<rparr>) in
        ebind (dict_get current_q ''options'') (\<lambda>opts.
        ebind (getitem opts answer) (\<lambda>correct_answer.
        Inr (s2\<lparr>store := (store s2)[a := AList.update ''correct'' (PInt 0) current_q],
                state := Feedback,
                submissions := submissions s2 @ [(i, current_q)]\<rparr>)))))) = Inr s'"
    unfolding handle_answer_def by (rule ebindE)
  from r1 obtain answer where ans: "dict_get (store s ! a) ''answer'' = Inr answer"
    unfolding Let_def by (rule ebindE)
  then have m: "map_of (store s ! a) ''answer'' = Some answer"
    by (simp add: dict_get_def split: option.splits)
  show ?thesis
  proof (cases "py_eq (PInt i) answer")
    case True
    with r1 ans m a show ?thesis
      by (auto simp: Let_def answered_correctly_def missed_topic_def)
  next
    case False
    with r1 ans m a show ?thesis
      by (auto simp: Let_def answered_correctly_def missed_topic_def ebind_Inr
          split: option.splits)
  qed
qed

subsection \<open>Invariants of the event loop\<close>

lemma tally_step:
  assumes "tally s" "handle_event env ev s = Inr s'"
  shows "tally s'"
  using assms(2)
proof (cases rule: handle_event_cases)
  case same
  with assms(1) show ?thesis by simp
next
  case (start ai)
  obtain q st c r rc sc ob where "s' = s\<lparr>ai_mode := (ai \<and> has_model s), current_difficulty := 1,
                 questions := q, store := st, ai_calls := c,
                 requests := r, rand_calls := rc,
                 index := 0, score := 0, wrong_topics := [], submissions := [],
                 state := sc, option_buttons := ob\<rparr>"
    by (rule that [OF start_quiz_effect [OF start(3), THEN conjunct1]])
  then show ?thesis by (simp add: tally_def)
next
  case (answer i)
  from handle_answer_submission [OF answer(4)] assms(1) show ?thesis
    by (auto simp: tally_def)
next
  case explain
  from get_ai_explanation_effect [OF explain(4)] obtain x where "s' = s\<lparr>ai_explanation := x, state := AIExplanation,
                 ai_calls := ai_calls s + 1\<rparr>" by (rule that)
  with assms(1) show ?thesis by (simp add: tally_def)
next
  case (continue s1)
  obtain d where "s1 = s\<lparr>current_difficulty := d\<rparr>"
    by (rule that [OF adjust_difficulty_effect(1) [OF continue(3)]])
  moreover obtain st ob where "s' = s1\<lparr>index := index s1 + 1, state := st, option_buttons := ob\<rparr>"
    by (rule that [OF next_question_effect [OF continue(4)]])
  ultimately show ?thesis using assms(1) by (simp add: tally_def)
next
  case plan
  obtain x c where "s' = s\<lparr>study_plan := x, state := StudyPlan, ai_calls := c\<rparr>"
    by (rule that [OF request_study_plan_effect [OF plan(4)]])
  with assms(1) show ?thesis by (simp add: tally_def)
qed

lemma difficulty_step:
  assumes "handle_event env ev s = Inr s'"
    and "current_difficulty s = 1 \<or> current_difficulty s = 2 \<or> current_difficulty s = 3"
  shows "(current_difficulty s' = 1 \<or> current_difficulty s' = 2 \<or> current_difficulty s' = 3)
       \<and> (current_difficulty s' = current_difficulty s
          \<or> ((ev = Click StartButton \<or> ev = Click AIModeButton \<or> ev = Click RetakeButton)
               \<and> current_difficulty s' = 1)
          \<or> (ev = Click ContinueButton \<and> (state s = Feedback \<or> state s = AIExplanation)
               \<and> \<bar>current_difficulty s' - current_difficulty s\<bar> = 1))"
  using assms(1)
proof (cases rule: handle_event_cases)
  case same
  with assms(2) show ?thesis by simp
next
  case (start ai)
  obtain q st c r rc sc ob where "s' = s\<lparr>ai_mode := (ai \<and> has_model s), current_difficulty := 1,
                 questions := q, store := st, ai_calls := c,
                 requests := r, rand_calls := rc,
                 index := 0, score := 0, wrong_topics := [], submissions := [],
                 state := sc, option_buttons := ob\<rparr>"
    by (rule that [OF start_quiz_effect [OF start(3), THEN conjunct1]])
  with start(2) show ?thesis by simp
next
  case (answer i)
  obtain sc st wt sb where "s' = s\<lparr>last_user_answer := int i, score := sc, store := st,
                 state := Feedback, wrong_topics := wt, submissions := sb\<rparr>"
    by (rule that [OF handle_answer_effect [OF answer(4)]])
  with assms(2) show ?thesis by simp
next
  case explain
  obtain x where "s' = s\<lparr>ai_explanation := x, state := AIExplanation,
                 ai_calls := ai_calls s + 1\<rparr>"
    by (rule that [OF get_ai_explanation_effect [OF explain(4)]])
  with assms(2) show ?thesis by simp
next
  case (continue s1)
  obtain st ob where "s' = s1\<lparr>index := index s1 + 1, state := st, option_buttons := ob\<rparr>"
    by (rule that [OF next_question_effect [OF continue(4)]])
  then have "current_difficulty s' = current_difficulty s1" by simp
  with adjust_difficulty_effect(2) [OF continue(3)] assms(2) continue(1,2) show ?thesis
    by auto
next
  case plan
  obtain x c where "s' = s\<lparr>study_plan := x, state := StudyPlan, ai_calls := c\<rparr>"
    by (rule that [OF request_study_plan_effect [OF plan(4)]])
  with assms(2) show ?thesis by simp
qed

lemma requests_step:
  assumes "handle_event env ev s = Inr s'" and "list_all (\<lambda>d. d = 1) (requests s)"
  shows "list_all (\<lambda>d. d = 1) (requests s')"
  using assms(1)
proof (cases rule: handle_event_cases)
  case same
  with assms(2) show ?thesis by simp
next
  case (start ai)
  from start_quiz_effect [OF start(3), THEN conjunct2] assms(2) show ?thesis
    by (auto simp: list_all_iff)
next
  case (answer i)
  obtain sc st wt sb where "s' = s\<lparr>last_user_answer := int i, score := sc, store := st,
                 state := Feedback, wrong_topics := wt, submissions := sb\<rparr>"
    by (rule that [OF handle_answer_effect [OF answer(4)]])
  with assms(2) show ?thesis by simp
next
  case explain
  obtain x where "s' = s\<lparr>ai_explanation := x, state := AIExplanation,
                 ai_calls := ai_calls s + 1\<rparr>"
    by (rule that [OF get_ai_explanation_effect [OF explain(4)]])
  with assms(2) show ?thesis by simp
next
  case (continue s1)
  obtain d where "s1 = s\<lparr>current_difficulty := d\<rparr>"
    by (rule that [OF adjust_difficulty_effect(1) [OF continue(3)]])
  moreover obtain st ob where "s' = s1\<lparr>index := index s1 + 1, state := st, option_buttons := ob\<rparr>"
    by (rule that [OF next_question_effect [OF continue(4)]])
  ultimately show ?thesis using assms(2) by simp
next
  case plan
  obtain x c where "s' = s\<lparr>study_plan := x, state := StudyPlan, ai_calls := c\<rparr>"
    by (rule that [OF request_study_plan_effect [OF plan(4)]])
  with assms(2) show ?thesis by simp
qed

lemma requests_grow:
  assumes "handle_event env ev s = Inr s'"
  shows "requests s' = requests s
       \<or> ((ev = Click StartButton \<or> ev = Click AIModeButton \<or> ev = Click RetakeButton)
           \<and> requests s' = requests s @ replicate 5 1)"
  using assms(1)
proof (cases rule: handle_event_cases)
  case same
  then show ?thesis by simp
next
  case (start ai)
  from start_quiz_effect [OF start(3), THEN conjunct2] start(2) show ?thesis
    by auto
next
  case (answer i)
  obtain sc st wt sb where "s' = s\<lparr>last_user_answer := int i, score := sc, store := st,
                 state := Feedback, wrong_topics := wt, submissions := sb\<rparr>"
    by (rule that [OF handle_answer_effect [OF answer(4)]])
  then show ?thesis by simp
next
  case explain
  obtain x where "s' = s\<lparr>ai_explanation := x, state := AIExplanation,
                 ai_calls := ai_calls s + 1\<rparr>"
    by (rule that [OF get_ai_explanation_effect [OF explain(4)]])
  then show ?thesis by simp
next
  case (continue s1)
  obtain d where "s1 = s\<lparr>current_difficulty := d\<rparr>"
    by (rule that [OF adjust_difficulty_effect(1) [OF continue(3)]])
  moreover obtain st ob where "s' = s1\<lparr>index := index s1 + 1, state := st, option_buttons := ob\<rparr>"
    by (rule that [OF next_question_effect [OF continue(4)]])
  ultimately show ?thesis by simp
next
  case plan
  obtain x c where "s' = s\<lparr>study_plan := x, state := StudyPlan, ai_calls := c\<rparr>"
    by (rule that [OF request_study_plan_effect [OF plan(4)]])
  then show ?thesis by simp
qed

subsection \<open>The example runs, evaluated\<close>

lemma full_round_run: "run offline full_round (init_game False) = Inr after_full_round"
  by code_simp

lemma retake_after_full_round:
  "\<exists>s. handle_event offline (Click RetakeButton) after_full_round = Inr s
     \<and> state s = Question \<and> index s = 0 \<and> submissions s = [] \<and> current_difficulty s = 1
     \<and> questions s = [0, 1, 2, 3, 4, 5, 6, 7, 8, 9]
     \<and> map (\<lambda>a. map_of (store s ! a) ''correct'') (questions s) = replicate 10 (Some (PInt 1))"
proof -
  have "map_sum id (\<lambda>s. (state s, index s, submissions s, current_difficulty s, questions s,
           map (\<lambda>a. map_of (store s ! a) ''correct'') (questions s)))
     (handle_event offline (Click RetakeButton) after_full_round)
   = Inr (Question, 0, [], 1, [0, 1, 2, 3, 4, 5, 6, 7, 8, 9], replicate 10 (Some (PInt 1)))"
    by code_simp
  then show ?thesis
    by (cases "handle_event offline (Click RetakeButton) after_full_round") auto
qed

lemma ai_round_run:
  "\<exists>s. run repeating [Click AIModeButton] (init_game True) = Inr s
     \<and> questions s = [15, 16, 17, 18, 19, 0, 1, 2, 3, 4]
     \<and> requests s = [1, 1, 1, 1, 1]
     \<and> store s ! 15 = generated_item @ [(''topic'', PStr ''ai_generated'')]
     \<and> store s ! 16 = generated_item @ [(''topic'', PStr ''ai_generated'')]"
proof -
  have "map_sum id (\<lambda>s. (questions s, requests s, store s ! 15, store s ! 16))
     (run repeating [Click AIModeButton] (init_game True))
   = Inr ([15, 16, 17, 18, 19, 0, 1, 2, 3, 4], [1, 1, 1, 1, 1],
          generated_item @ [(''topic'', PStr ''ai_generated'')],
          generated_item @ [(''topic'', PStr ''ai_generated'')])"
    by code_simp
  then show ?thesis
    by (cases "run repeating [Click AIModeButton] (init_game True)") auto
qed

subsection \<open>A game without a model\<close>

lemma with_model_simps [simp]:
  "with_model (Inl e) = Inl e" "with_model (Inr t) = Inr (t\<lparr>has_model := True\<rparr>)"
  by (simp_all add: with_model_def)

lemma with_model_ebind:
  "with_model (ebind m f) = ebind m (\<lambda>x. with_model (f x))"
  by (cases m) simp_all

lemma next_question_model:
  "next_question (s\<lparr>has_model := True\<rparr>) = with_model (next_question s)"
  by (simp add: next_question_def Let_def ebind_def split: sum.splits)

lemma adjust_difficulty_model:
  "adjust_difficulty (s\<lparr>has_model := True\<rparr>) = with_model (adjust_difficulty s)"
  by (simp add: adjust_difficulty_def Let_def ebind_def recent_answers_def split: sum.splits)

lemma handle_answer_model:
  "handle_answer i (s\<lparr>has_model := True\<rparr>) = with_model (handle_answer i s)"
  by (simp add: handle_answer_def Let_def ebind_def split: sum.splits option.splits)

lemma fill_from_bank_model:
  "fill_from_bank env (s\<lparr>has_model := True\<rparr>) = with_model (fill_from_bank env s)"
  by (simp add: fill_from_bank_def Let_def unused_bank_def)

lemma start_quiz_model:
  "start_quiz env False (s\<lparr>has_model := True\<rparr>) = with_model (start_quiz env False s)"
  by (simp add: start_quiz_def fill_from_bank_def next_question_def unused_bank_def Let_def
      ebind_def split: sum.splits)

lemma next_question_state:
  assumes "next_question s = Inr s'"
  shows "state s' = Summary \<or> state s' = Question"
  using assms by (auto simp: next_question_def Let_def ebind_Inr split: if_splits)

lemma start_quiz_standard:
  assumes "start_quiz env ai s = Inr s'" and "\<not> (ai \<and> has_model s)"
  shows "ai_calls s' = ai_calls s \<and> store s' = store s \<and> requests s' = requests s
       \<and> has_model s' = has_model s \<and> \<not> ai_mode s'
       \<and> (state s' = Summary \<or> state s' = Question)"
proof -
  from assms(1) obtain wt s2 s3 where
    s2: "(if ai \<and> has_model s
      then ai_turns env wt 5
             (s\<lparr>ai_mode := (ai \<and> has_model s), questions := [], current_difficulty := 1\<rparr>)
      else Inr (s\<lparr>ai_mode := (ai \<and> has_model s), questions := [],
                  current_difficulty := 1\<rparr>)) = Inr s2"
    and s3: "fill_from_bank env s2 = Inr s3"
    and nq: "next_question (s3\<lparr>questions := shuffle (random env) (rand_calls s3) (questions s3),
            rand_calls := rand_calls s3 + length (questions s3),
            index := - 1, score := 0, wrong_topics := [], submissions := []\<rparr>) = Inr s'"
    by (rule start_quiz_cases)
  obtain st ob where e4: "s' = s3\<lparr>questions := shuffle (random env) (rand_calls s3) (questions s3),
            rand_calls := rand_calls s3 + length (questions s3),
            index := - 1, score := 0, wrong_topics := [], submissions := []\<rparr>
            \<lparr>index := 0, state := st, option_buttons := ob\<rparr>"
    using next_question_effect [OF nq] by (simp add: that)
  obtain q3 r3 where e3: "s3 = s2\<lparr>questions := q3, rand_calls := r3\<rparr>"
    by (rule that [OF fill_from_bank_effect [OF s3]])
  from s2 assms(2) have e2: "s2 = s\<lparr>ai_mode := (ai \<and> has_model s), questions := [],
        current_difficulty := 1\<rparr>"
    by auto
  have "state s' = Summary \<or> state s' = Question"
    using nq by (rule next_question_state)
  then show ?thesis using assms(2) unfolding e4 e3 e2 by auto
qed

lemma handle_answer_has_answer:
  assumes "handle_answer i s = Inr s'"
  shows "\<exists>a answer. py_nth (questions s') (index s') = Inr a
           \<and> dict_get (store s' ! a) ''answer'' = Inr answer"
proof -
  from assms obtain a where a: "py_nth (questions s) (index s) = Inr a"
    and r1: "(let current_q = store s ! a;
         s1 = s\<lparr>last_user_answer := i\<rparr> in
     ebind (dict_get current_q ''answer'') (\<lambda>answer.
     if py_eq (PInt i) answer then
       Inr (s1\<lparr>score := score s1 + 1,
               store := (store s1)[a := AList.update ''correct'' (PInt 1) current_q],
               state := Feedback,
               submissions := submissions s1 @ [(i, current_q)]\<rparr>)
     else
       (let s2 = (case map_of current_q ''topic'' of
                    None \<Rightarrow> s1
                  | Some t \<Rightarrow> s1\<lparr>wrong_topics := wrong_topics s1 @ [t]\<rparr>) in
        ebind (dict_get current_q ''options'') (\<lambda>opts.
        ebind (getitem opts answer) (\<lambda>correct_answer.
        Inr (s2\<lparr>store := (store s2)[a := AList.update ''correct'' (PInt 0) current_q],
                state := Feedback,
                submissions := submissions s2 @ [(i, current_q)]\<rparr>)))))) = Inr s'"
    unfolding handle_answer_def by (rule ebindE)
  from r1 obtain answer where ans: "dict_get (store s ! a) ''answer'' = Inr answer"
    unfolding Let_def by (rule ebindE)
  obtain sc st wt sb where e: "s' = s\<lparr>last_user_answer := i, score := sc, store := st,
                 state := Feedback, wrong_topics := wt, submissions := sb\<rparr>"
    by (rule that [OF handle_answer_effect [OF assms]])
  from handle_answer_submission [OF assms] a obtain v where
    st: "store s' = (store s)[a := AList.update ''correct'' (PInt v) (store s ! a)]"
    by auto
  have "dict_get (store s' ! a) ''answer'' = Inr answer"
  proof (cases "a < length (store s)")
    case True
    then show ?thesis using ans by (simp add: st dict_get_def update_conv')
  next
    case False
    then show ?thesis using ans by (simp add: st list_update_beyond)
  qed
  moreover have "py_nth (questions s') (index s') = Inr a" using a by (simp add: e)
  ultimately show ?thesis by blast
qed

lemma unconfigured_step:
  assumes "unconfigured s" and "handle_event env ev s = Inr s'"
  shows "unconfigured s'"
  using assms(2)
proof (cases rule: handle_event_cases)
  case same
  with assms(1) show ?thesis by simp
next
  case (start ai)
  from assms(1) have "\<not> (ai \<and> has_model s)" by (simp add: unconfigured_def)
  from start_quiz_standard [OF start(3) this] assms(1) show ?thesis
    by (auto simp: unconfigured_def)
next
  case (answer i)
  obtain sc st wt sb where "s' = s\<lparr>last_user_answer := int i, score := sc, store := st,
                 state := Feedback, wrong_topics := wt, submissions := sb\<rparr>"
    by (rule that [OF handle_answer_effect [OF answer(4)]])
  then have "\<not> has_model s' \<and> \<not> ai_mode s' \<and> ai_calls s' = 0"
    using assms(1) by (simp add: unconfigured_def)
  with handle_answer_has_answer [OF answer(4)] show ?thesis
    by (simp add: unconfigured_def)
next
  case explain
  with assms(1) show ?thesis by (simp add: unconfigured_def)
next
  case (continue s1)
  obtain d where "s1 = s\<lparr>current_difficulty := d\<rparr>"
    by (rule that [OF adjust_difficulty_effect(1) [OF continue(3)]])
  moreover obtain st ob where "s' = s1\<lparr>index := index s1 + 1, state := st, option_buttons := ob\<rparr>"
    by (rule that [OF next_question_effect [OF continue(4)]])
  moreover have "state s' = Summary \<or> state s' = Question"
    using continue(4) by (rule next_question_state)
  ultimately show ?thesis using assms(1) by (auto simp: unconfigured_def)
next
  case plan
  with assms(1) show ?thesis by (simp add: unconfigured_def)
qed

lemma unconfigured_ignores:
  assumes "unconfigured s"
    and "ev = Click AIModeButton \<or> ev = Click AIExplanationButton \<or> ev = Click StudyPlanButton"
  shows "handle_event env ev s = Inr s"
proof (cases "state s")
  case Feedback
  with assms(1) obtain a answer where "py_nth (questions s) (index s) = Inr a"
    "dict_get (store s ! a) ''answer'' = Inr answer" "\<not> has_model s"
    by (auto simp: unconfigured_def)
  with Feedback assms(2) show ?thesis by (auto simp: handle_event_def)
qed (use assms in \<open>auto simp: handle_event_def unconfigured_def\<close>)

lemma standard_play_model:
  assumes "\<not> ai_mode s"
    and "ev \<noteq> Click AIModeButton" "ev \<noteq> Click AIExplanationButton" "ev \<noteq> Click StudyPlanButton"
  shows "handle_event env ev (s\<lparr>has_model := True\<rparr>) = with_model (handle_event env ev s)"
proof (cases "state s")
  case Home
  show ?thesis
  proof (cases "ev = Click StartButton")
    case True
    then show ?thesis using Home
      by (cases "start_quiz env False s") (simp_all add: handle_event_def start_quiz_model)
  next
    case False
    then show ?thesis using Home assms by (simp add: handle_event_def)
  qed
next
  case Question
  then show ?thesis
    by (simp add: handle_event_def handle_answer_model split: event.splits button.splits)
next
  case Feedback
  show ?thesis
  proof (cases "ev = Click ContinueButton")
    case True
    then show ?thesis using Feedback
      by (cases "adjust_difficulty s")
        (simp_all add: handle_event_def ebind_def adjust_difficulty_model next_question_model
          split: sum.splits)
  next
    case False
    then show ?thesis using Feedback assms
      by (simp add: handle_event_def ebind_def split: sum.splits)
  qed
next
  case AIExplanation
  then show ?thesis
    by (cases "adjust_difficulty s")
      (simp_all add: handle_event_def adjust_difficulty_model next_question_model)
next
  case Summary
  show ?thesis
  proof (cases "ev = Click RetakeButton")
    case True
    then show ?thesis using Summary assms
      by (cases "start_quiz env False s") (simp_all add: handle_event_def start_quiz_model)
  next
    case False
    then show ?thesis using Summary assms by (simp add: handle_event_def)
  qed
next
  case StudyPlan
  then show ?thesis using assms
    by (simp add: handle_event_def start_quiz_model)
qed

section \<open>The claims\<close>

text \<open>
  Claim C1 fails on the code. \<^verbatim>\<open>adjust_difficulty\<close> reads the flags of the last three
  items of the list of the round, not of the three items answered last. In a first round
  of ten questions the first three answers, all correct, leave the difficulty at 1 when the
  player continues: none of the last three items of the list has a flag yet.
\<close>

theorem three_correct_answers_leave_difficulty:
  "\<exists>s. run offline three_correct (init_game False) = Inr s
     \<and> map answered_correctly (submissions s) = [True, True, True]
     \<and> index s = 3 \<and> state s = Question
     \<and> recent_answers s = []
     \<and> current_difficulty s = 1"
proof -
  have "map_sum id (\<lambda>s. (map answered_correctly (submissions s), index s, state s,
                          recent_answers s, current_difficulty s))
          (run offline three_correct (init_game False))
        = Inr ([True, True, True], 3, Question, [], 1)"
    by code_simp
  then show ?thesis
    by (cases "run offline three_correct (init_game False)") auto
qed

text \<open>
  Claim C3. In every state that the event loop reaches, the score is the number of
  submissions of the round whose selected index equals the answer of the item, and the
  missed topics are the topics of the items answered incorrectly, in the order of the
  submissions; every answer that \<^verbatim>\<open>handle_answer\<close> takes is one more submission, of the
  selected index and the current item.
\<close>

theorem score_counts_correct_submissions:
  assumes "run env evs (init_game m) = Inr s"
  shows "score s = int (length (filter answered_correctly (submissions s)))
       \<and> wrong_topics s = concat (map missed_topic (submissions s))
       \<and> (\<forall>i s'. handle_answer i s = Inr s' \<longrightarrow>
            (\<exists>a. py_nth (questions s) (index s) = Inr a
               \<and> submissions s' = submissions s @ [(i, store s ! a)]))"
proof -
  have "tally (init_game m)" by (simp add: tally_def init_game_def)
  with assms have "tally s"
    by (rule run_invariant) (rule tally_step)
  moreover have "\<exists>a. py_nth (questions s) (index s) = Inr a
               \<and> submissions s' = submissions s @ [(i, store s ! a)]"
    if "handle_answer i s = Inr s'" for i s'
    using handle_answer_submission [OF that] by (elim exE conjE) (rule exI, rule conjI)
  ultimately show ?thesis by (simp add: tally_def)
qed

text \<open>The theorem after one correct answer in a standard round, answered once more.\<close>

theorem score_counts_correct_submissions_witness:
  "\<exists>s s'. run offline [Click StartButton, Click (OptionButton 2)] (init_game False) = Inr s
     \<and> score s = 1
     \<and> score s = int (length (filter answered_correctly (submissions s)))
     \<and> wrong_topics s = concat (map missed_topic (submissions s))
     \<and> handle_answer 0 s = Inr s'
     \<and> (\<exists>a. py_nth (questions s) (index s) = Inr a
            \<and> submissions s' = submissions s @ [(0, store s ! a)])"
proof -
  have "map_sum id (\<lambda>s. (score s, isl (handle_answer 0 s)))
          (run offline [Click StartButton, Click (OptionButton 2)] (init_game False))
        = Inr (1, False)"
    by code_simp
  then obtain s where s: "run offline [Click StartButton, Click (OptionButton 2)] (init_game False) = Inr s"
    and sc: "score s = 1" and "\<not> isl (handle_answer 0 s)"
    by (cases "run offline [Click StartButton, Click (OptionButton 2)] (init_game False)") auto
  then obtain s' where s': "handle_answer 0 s = Inr s'"
    by (cases "handle_answer 0 s") auto
  from score_counts_correct_submissions [OF s] s s' sc show ?thesis
    by (intro exI [of _ s] exI [of _ s']) simp
qed



text \<open>
  Claim C5. None of the three operations of the assistant raises, whatever the model call
  and \<^verbatim>\<open>json.loads\<close> do: \<^verbatim>\<open>generate_personalized_question\<close> returns \<^verbatim>\<open>None\<close> or what
  the parsing routine made of the reply, and \<^verbatim>\<open>get_detailed_explanation\<close> and
  \<^verbatim>\<open>generate_study_plan\<close> return the stripped reply or one of their two fixed messages.
\<close>

theorem content_provider_never_raises:
  "(\<exists>v. generate_personalized_question env m n difficulty weak = Inr v
        \<and> (v = PNone \<or> (\<exists>areas reply. generate_content env n (QuestionPrompt difficulty areas) = Inr reply
                \<and> parse_json_from_response (json_loads env) reply = Inr v)))
   \<and> (\<exists>t. get_detailed_explanation env m n question user_idx correct_idx opts = Inr t
        \<and> (t = explanation_no_model \<or> t = explanation_error
            \<or> (\<exists>p reply. generate_content env n p = Inr reply \<and> t = strip reply)))
   \<and> (\<exists>t. generate_study_plan env m n topics sc = Inr t
        \<and> (t = study_plan_no_model \<or> t = study_plan_error
            \<or> (\<exists>p reply. generate_content env n p = Inr reply \<and> t = strip reply)))"
proof (intro conjI)
  show "\<exists>v. generate_personalized_question env m n difficulty weak = Inr v
        \<and> (v = PNone \<or> (\<exists>areas reply. generate_content env n (QuestionPrompt difficulty areas) = Inr reply
                \<and> parse_json_from_response (json_loads env) reply = Inr v))"
    by (auto simp: generate_personalized_question_def ebind_def try_except_def
        split: sum.splits option.splits)
  show "\<exists>t. get_detailed_explanation env m n question user_idx correct_idx opts = Inr t
        \<and> (t = explanation_no_model \<or> t = explanation_error
            \<or> (\<exists>p reply. generate_content env n p = Inr reply \<and> t = strip reply))"
    by (auto simp: get_detailed_explanation_def ebind_def try_except_def split: sum.splits)
  show "\<exists>t. generate_study_plan env m n topics sc = Inr t
        \<and> (t = study_plan_no_model \<or> t = study_plan_error
            \<or> (\<exists>p reply. generate_content env n p = Inr reply \<and> t = strip reply))"
    by (auto simp: generate_study_plan_def ebind_def try_except_def split: sum.splits)
qed




text \<open>
  Claim C8. In every state that a game without a model reaches, the model is still
  missing, the adaptive mode is off and the assistant has not been called; a press of the
  button of the adaptive mode, of the explanation or of the study plan leaves the state as
  it is; \<^verbatim>\<open>start_quiz\<close> with the adaptive flag does what it does without the flag; and
  the game answers every other event as a game with a model does from the same state.
\<close>

theorem unconfigured_provider_disables_ai:
  assumes "run env evs (init_game False) = Inr s"
  shows "\<not> has_model s \<and> \<not> ai_mode s \<and> ai_calls s = 0
       \<and> handle_event env (Click AIModeButton) s = Inr s
       \<and> handle_event env (Click AIExplanationButton) s = Inr s
       \<and> handle_event env (Click StudyPlanButton) s = Inr s
       \<and> start_quiz env True s = start_quiz env False s
       \<and> (\<forall>ev. ev \<noteq> Click AIModeButton \<and> ev \<noteq> Click AIExplanationButton
                 \<and> ev \<noteq> Click StudyPlanButton \<longrightarrow>
             handle_event env ev (s\<lparr>has_model := True\<rparr>)
               = map_sum id (\<lambda>t. t\<lparr>has_model := True\<rparr>) (handle_event env ev s))"
proof -
  have "unconfigured (init_game False)" by (simp add: unconfigured_def init_game_def)
  with assms have u: "unconfigured s"
    by (rule run_invariant) (rule unconfigured_step)
  then have off: "\<not> has_model s" "\<not> ai_mode s" "ai_calls s = 0"
    by (simp_all add: unconfigured_def)
  have same: "start_quiz env True s = start_quiz env False s"
    using off(1) by (simp add: start_quiz_def)
  have other: "handle_event env ev (s\<lparr>has_model := True\<rparr>)
               = map_sum id (\<lambda>t. t\<lparr>has_model := True\<rparr>) (handle_event env ev s)"
    if "ev \<noteq> Click AIModeButton \<and> ev \<noteq> Click AIExplanationButton \<and> ev \<noteq> Click StudyPlanButton"
    for ev
    using standard_play_model [OF off(2), of ev env] that by (simp add: with_model_def)
  show ?thesis
    using off same other unconfigured_ignores [OF u, of _ env]
    by (intro conjI allI impI) simp_all
qed

text \<open>
  The theorem at the end of a whole round: the press of the study plan button changes
  nothing, and a retake starts the same round with and without a model.
\<close>

theorem unconfigured_provider_disables_ai_witness:
  "run offline full_round (init_game False) = Inr after_full_round
   \<and> handle_event offline (Click StudyPlanButton) after_full_round = Inr after_full_round
   \<and> start_quiz offline True after_full_round = start_quiz offline False after_full_round
   \<and> handle_event offline (Click RetakeButton) (after_full_round\<lparr>has_model := True\<rparr>)
       = map_sum id (\<lambda>t. t\<lparr>has_model := True\<rparr>)
           (handle_event offline (Click RetakeButton) after_full_round)"
proof -
  note th = unconfigured_provider_disables_ai [OF full_round_run]
  have "handle_event offline (Click RetakeButton) (after_full_round\<lparr>has_model := True\<rparr>)
       = map_sum id (\<lambda>t. t\<lparr>has_model := True\<rparr>)
           (handle_event offline (Click RetakeButton) after_full_round)"
    using th by (elim conjE allE [of _ "Click RetakeButton"]) simp
  with th full_round_run show ?thesis by (intro conjI) simp_all
qed

text \<open>
  Claim C9 fails on the code. \<^verbatim>\<open>handle_answer\<close> writes the flag into the dict of the
  bank itself and nothing removes it, so the round that a retake makes holds items that
  carry a flag before the player has answered any of them: here it is all ten, after a
  round that was answered to its end.
\<close>

theorem retake_round_keeps_answer_flags:
  "\<exists>s. run offline full_round (init_game False) = Inr after_full_round
     \<and> handle_event offline (Click RetakeButton) after_full_round = Inr s
     \<and> state s = Question \<and> index s = 0 \<and> submissions s = []
     \<and> map (\<lambda>a. map_of (store s ! a) ''correct'') (questions s) = replicate 10 (Some (PInt 1))"
proof -
  obtain s where "handle_event offline (Click RetakeButton) after_full_round = Inr s"
    "state s = Question" "index s = 0" "submissions s = []"
    "map (\<lambda>a. map_of (store s ! a) ''correct'') (questions s) = replicate 10 (Some (PInt 1))"
    using retake_after_full_round by (elim exE conjE)
  with full_round_run show ?thesis by (intro exI [of _ s] conjI)
qed



end
